theory Spec2Isabelle
  imports Complex_Main
begin

section \<open>Numbers and rectangles\<close>

text \<open>
  Python floats are modelled as the reals (no rounding, no overflow); Python ints as
  \<open>int\<close>. \<open>py_int\<close> is Python's \<open>int(x)\<close> on a float, which truncates towards zero;
  assigning a float to a coordinate of a \<open>pygame.Rect\<close> truncates the same way, because
  a \<open>pygame.Rect\<close> stores integer coordinates.
\<close>

definition py_int :: "real \<Rightarrow> int" where
  "py_int r = (if 0 \<le> r then \<lfloor>r\<rfloor> else \<lceil>r\<rceil>)"

record rect =
  rect_x :: int
  rect_y :: int
  rect_w :: int
  rect_h :: int

definition Rect :: "int \<Rightarrow> int \<Rightarrow> int \<Rightarrow> int \<Rightarrow> rect" where
  "Rect x y w h = \<lparr>rect_x = x, rect_y = y, rect_w = w, rect_h = h\<rparr>"

definition rect_left :: "rect \<Rightarrow> int" where "rect_left r = rect_x r"
definition rect_top :: "rect \<Rightarrow> int" where "rect_top r = rect_y r"
definition rect_right :: "rect \<Rightarrow> int" where "rect_right r = rect_x r + rect_w r"
definition rect_bottom :: "rect \<Rightarrow> int" where "rect_bottom r = rect_y r + rect_h r"

text \<open>\<open>pygame.Rect.__bool__\<close>: a rectangle is falsy when its width or height is zero.\<close>

definition rect_bool :: "rect \<Rightarrow> bool" where
  "rect_bool r \<longleftrightarrow> rect_w r \<noteq> 0 \<and> rect_h r \<noteq> 0"

text \<open>\<open>pygame.Rect.colliderect\<close>: zero-sized rectangles collide with nothing; otherwise
  the two (normalised) half-open extents must intersect on both axes.\<close>

definition colliderect :: "rect \<Rightarrow> rect \<Rightarrow> bool" where
  "colliderect a b \<longleftrightarrow>
     \<not> (rect_w a = 0 \<or> rect_h a = 0 \<or> rect_w b = 0 \<or> rect_h b = 0) \<and>
     min (rect_x a) (rect_x a + rect_w a) < max (rect_x b) (rect_x b + rect_w b) \<and>
     min (rect_y a) (rect_y a + rect_h a) < max (rect_y b) (rect_y b + rect_h b) \<and>
     max (rect_x a) (rect_x a + rect_w a) > min (rect_x b) (rect_x b + rect_w b) \<and>
     max (rect_y a) (rect_y a + rect_h a) > min (rect_y b) (rect_y b + rect_h b)"

text \<open>\<open>pygame.Rect.contains\<close>: the argument lies completely inside the rectangle.\<close>

definition rect_contains :: "rect \<Rightarrow> rect \<Rightarrow> bool" where
  "rect_contains a b \<longleftrightarrow>
     rect_x a \<le> rect_x b \<and> rect_y a \<le> rect_y b \<and>
     rect_x a + rect_w a \<ge> rect_x b + rect_w b \<and>
     rect_y a + rect_h a \<ge> rect_y b + rect_h b \<and>
     rect_x a + rect_w a > rect_x b \<and>
     rect_y a + rect_h a > rect_y b"

text \<open>A pixel \<open>(px, py)\<close> lies in a rectangle when it is inside its half-open extent on
  both axes. Two rectangles overlap when they share a pixel.\<close>

definition pixel_in_rect :: "rect \<Rightarrow> int \<Rightarrow> int \<Rightarrow> bool" where
  "pixel_in_rect r px py \<longleftrightarrow>
     min (rect_x r) (rect_x r + rect_w r) \<le> px \<and> px < max (rect_x r) (rect_x r + rect_w r) \<and>
     min (rect_y r) (rect_y r + rect_h r) \<le> py \<and> py < max (rect_y r) (rect_y r + rect_h r)"

section \<open>Player: hit points and invulnerability (entities/player.py)\<close>

text \<open>\<open>INVULNERABILITY_TIME\<close> comes from \<open>core.settings\<close> and is a parameter here.\<close>

record player =
  hp :: int
  max_hp :: int
  invulnerability_timer :: int

definition update_invulnerability :: "player \<Rightarrow> player" where
  "update_invulnerability p =
     (if invulnerability_timer p > 0
      then p\<lparr>invulnerability_timer := invulnerability_timer p - 1\<rparr>
      else p)"

definition take_damage :: "int \<Rightarrow> int \<Rightarrow> player \<Rightarrow> bool \<times> player" where
  "take_damage INVULNERABILITY_TIME damage p =
     (if invulnerability_timer p > 0 then (False, p)
      else (True, p\<lparr>hp := max 0 (hp p - damage),
                      invulnerability_timer := INVULNERABILITY_TIME\<rparr>))"

section \<open>Base projectile and targeting bullet (combat/bullet.py)\<close>

text \<open>
  A projectile's position is the integer position of its \<open>pygame.Rect\<close>; its velocity is a
  float. \<open>BULLET_SPEED_MULT\<close> and \<open>BULLET_BASE_SPEED\<close> come from \<open>core.settings\<close> and are
  parameters. \<open>kill()\<close> is reported as the second component of the result of an update.
\<close>

record projectile =
  p_rect :: rect
  p_vx :: real
  p_vy :: real
  p_bounds :: "rect option"

definition Projectile_init ::
  "real \<Rightarrow> real \<Rightarrow> real \<Rightarrow> real \<Rightarrow> real \<Rightarrow> int \<Rightarrow> int \<Rightarrow> projectile" where
  "Projectile_init BULLET_SPEED_MULT x y vx vy width height =
     \<lparr>p_rect = Rect (py_int x) (py_int y) width height,
      p_vx = vx * BULLET_SPEED_MULT,
      p_vy = vy * BULLET_SPEED_MULT,
      p_bounds = None\<rparr>"

definition set_bounds :: "rect \<Rightarrow> projectile \<Rightarrow> projectile" where
  "set_bounds box_rect p =
     p\<lparr>p_bounds := Some (Rect (rect_left box_rect - 100) (rect_top box_rect - 100)
                              (rect_w box_rect + 100 * 2) (rect_h box_rect + 100 * 2))\<rparr>"

definition Projectile_update :: "projectile \<Rightarrow> projectile \<times> bool" where
  "Projectile_update p =
     (let r1 = (p_rect p)\<lparr>rect_x := py_int (real_of_int (rect_x (p_rect p)) + p_vx p)\<rparr>;
          r2 = r1\<lparr>rect_y := py_int (real_of_int (rect_y r1) + p_vy p)\<rparr>;
          killed = (case p_bounds p of
                      None \<Rightarrow> False
                    | Some b \<Rightarrow> rect_bool b \<and> \<not> rect_contains b r2)
      in (p\<lparr>p_rect := r2\<rparr>, killed))"

definition LineBullet_init :: "real \<Rightarrow> real \<Rightarrow> real \<Rightarrow> real \<Rightarrow> real \<Rightarrow> projectile" where
  "LineBullet_init MULT x y vx vy = Projectile_init MULT x y vx vy 40 6"

definition CircleBullet_init :: "real \<Rightarrow> real \<Rightarrow> real \<Rightarrow> real \<Rightarrow> real \<Rightarrow> projectile" where
  "CircleBullet_init MULT x y vx vy = Projectile_init MULT x y vx vy 8 8"

text \<open>\<open>speed or (BULLET_BASE_SPEED * BULLET_SPEED_MULT)\<close>: the default replaces \<open>None\<close>
  and also the falsy speed \<open>0\<close>.\<close>

definition TargetingBullet_init ::
  "real \<Rightarrow> real \<Rightarrow> real \<Rightarrow> real \<Rightarrow> real \<Rightarrow> real \<Rightarrow> real option \<Rightarrow> projectile" where
  "TargetingBullet_init BULLET_BASE_SPEED BULLET_SPEED_MULT x y target_x target_y speed =
     (let dx = target_x - x;
          dy = target_y - y;
          distance = sqrt (dx * dx + dy * dy);
          speed' = (case speed of
                      None \<Rightarrow> BULLET_BASE_SPEED * BULLET_SPEED_MULT
                    | Some s \<Rightarrow> if s = 0 then BULLET_BASE_SPEED * BULLET_SPEED_MULT else s);
          v = (if distance > 0
               then ((dx / distance) * speed', (dy / distance) * speed')
               else (0, speed'))
      in Projectile_init BULLET_SPEED_MULT x y (fst v) (snd v) 10 10)"

section \<open>Homing blade (combat/patterns.py)\<close>

datatype blade_state = Aiming | Charging | Flying

record homing_blade =
  hb_rect :: rect
  hb_x :: real
  hb_y :: real
  hb_box :: rect
  hb_state :: blade_state
  hb_timer :: int
  aim_duration :: int
  charge_duration :: int
  hb_target_x :: real
  hb_target_y :: real
  hb_vx :: real
  hb_vy :: real
  hb_speed :: real

text \<open>\<open>rect.center = (cx, cy)\<close> on a 30 by 30 rectangle.\<close>

definition set_center :: "int \<Rightarrow> int \<Rightarrow> rect \<Rightarrow> rect" where
  "set_center cx cy r = r\<lparr>rect_x := cx - rect_w r div 2, rect_y := cy - rect_h r div 2\<rparr>"

definition HomingBlade_init :: "real \<Rightarrow> real \<Rightarrow> rect \<Rightarrow> homing_blade" where
  "HomingBlade_init x y box_rect =
     \<lparr>hb_rect = set_center (py_int x) (py_int y) (Rect 0 0 30 30),
      hb_x = x, hb_y = y, hb_box = box_rect,
      hb_state = Aiming, hb_timer = 0, aim_duration = 60, charge_duration = 15,
      hb_target_x = 0, hb_target_y = 0, hb_vx = 0, hb_vy = 0, hb_speed = 15\<rparr>"

definition set_target :: "real \<Rightarrow> real \<Rightarrow> homing_blade \<Rightarrow> homing_blade" where
  "set_target tx ty b = b\<lparr>hb_target_x := tx, hb_target_y := ty\<rparr>"

definition HomingBlade_update :: "homing_blade \<Rightarrow> homing_blade \<times> bool" where
  "HomingBlade_update b =
     (case hb_state b of
        Aiming \<Rightarrow>
          (let b1 = b\<lparr>hb_timer := hb_timer b + 1\<rparr>
           in if hb_timer b1 \<ge> aim_duration b1
              then (let b2 = b1\<lparr>hb_state := Charging, hb_timer := 0\<rparr>;
                        dx = hb_target_x b2 - hb_x b2;
                        dy = hb_target_y b2 - hb_y b2;
                        dist = sqrt (dx * dx + dy * dy)
                    in if dist > 0
                       then (b2\<lparr>hb_vx := (dx / dist) * hb_speed b2,
                                 hb_vy := (dy / dist) * hb_speed b2\<rparr>, False)
                       else (b2, False))
              else (b1, False))
      | Charging \<Rightarrow>
          (let b1 = b\<lparr>hb_timer := hb_timer b + 1\<rparr>
           in if hb_timer b1 \<ge> charge_duration b1
              then (b1\<lparr>hb_state := Flying\<rparr>, False)
              else (b1, False))
      | Flying \<Rightarrow>
          (let b1 = b\<lparr>hb_x := hb_x b + hb_vx b, hb_y := hb_y b + hb_vy b\<rparr>;
               b2 = b1\<lparr>hb_rect := set_center (py_int (hb_x b1)) (py_int (hb_y b1)) (hb_rect b1)\<rparr>
           in (b2, hb_x b2 < real_of_int (rect_left (hb_box b2) - 50) \<or>
                   hb_x b2 > real_of_int (rect_right (hb_box b2) + 50) \<or>
                   hb_y b2 < real_of_int (rect_top (hb_box b2) - 50) \<or>
                   hb_y b2 > real_of_int (rect_bottom (hb_box b2) + 50))))"

section \<open>Gravity well (combat/patterns.py)\<close>

record gravity_well =
  gw_x :: real
  gw_y :: real
  strength :: real
  repel :: bool
  duration :: int
  gw_timer :: int
  gw_active :: bool
  gw_radius :: int

definition GravityWell_init :: "real \<Rightarrow> real \<Rightarrow> real \<Rightarrow> bool \<Rightarrow> int \<Rightarrow> gravity_well" where
  "GravityWell_init x y s rp d =
     \<lparr>gw_x = x, gw_y = y, strength = s, repel = rp, duration = d,
      gw_timer = 0, gw_active = True, gw_radius = 40\<rparr>"

definition GravityWell_update :: "gravity_well \<Rightarrow> gravity_well" where
  "GravityWell_update w =
     (let w1 = w\<lparr>gw_timer := gw_timer w + 1\<rparr>
      in if gw_timer w1 \<ge> duration w1 then w1\<lparr>gw_active := False\<rparr> else w1)"

definition apply_force :: "gravity_well \<Rightarrow> real \<Rightarrow> real \<Rightarrow> real \<times> real" where
  "apply_force w player_x player_y =
     (if \<not> gw_active w then (0, 0)
      else
        (let dx = gw_x w - player_x;
             dy = gw_y w - player_y;
             dist0 = sqrt (dx * dx + dy * dy);
             dist = (if dist0 < 10 then 10 else dist0);
             fm0 = strength w * (100 / dist);
             force_magnitude = (if repel w then - fm0 else fm0)
         in ((dx / dist) * force_magnitude, (dy / dist) * force_magnitude)))"

text \<open>Euclidean length of a vector, to state magnitudes.\<close>

definition vec_len :: "real \<times> real \<Rightarrow> real" where
  "vec_len v = sqrt (fst v * fst v + snd v * snd v)"

text \<open>Distance between a well and the player, and the well's strength with the sign
  that \<open>repel\<close> gives it.\<close>

definition well_distance :: "gravity_well \<Rightarrow> real \<Rightarrow> real \<Rightarrow> real" where
  "well_distance w px py =
     sqrt ((gw_x w - px) * (gw_x w - px) + (gw_y w - py) * (gw_y w - py))"

definition signed_strength :: "gravity_well \<Rightarrow> real" where
  "signed_strength w = (if repel w then - strength w else strength w)"

section \<open>Laser beam (combat/patterns.py)\<close>

datatype laser_state = Warning | Active | Done

record laser_beam =
  lb_box :: rect
  is_horizontal :: bool
  lb_pos :: int
  lb_state :: laser_state
  lb_timer :: int
  warning_duration :: int
  active_duration :: int
  warning_width :: int
  beam_width :: int

text \<open>The constructor with its two random results (orientation, position) given.\<close>

definition LaserBeam_init :: "rect \<Rightarrow> bool \<Rightarrow> int \<Rightarrow> laser_beam" where
  "LaserBeam_init box_rect horiz pos =
     \<lparr>lb_box = box_rect, is_horizontal = horiz, lb_pos = pos,
      lb_state = Warning, lb_timer = 0, warning_duration = 30, active_duration = 15,
      warning_width = 2, beam_width = 30\<rparr>"

definition LaserBeam_update :: "laser_beam \<Rightarrow> laser_beam" where
  "LaserBeam_update l =
     (let l1 = l\<lparr>lb_timer := lb_timer l + 1\<rparr>
      in if lb_state l1 = Warning \<and> lb_timer l1 \<ge> warning_duration l1
         then l1\<lparr>lb_state := Active, lb_timer := 0\<rparr>
         else if lb_state l1 = Active \<and> lb_timer l1 \<ge> active_duration l1
         then l1\<lparr>lb_state := Done\<rparr>
         else l1)"

definition is_done :: "laser_beam \<Rightarrow> bool" where
  "is_done l \<longleftrightarrow> lb_state l = Done"

definition beam_rect :: "laser_beam \<Rightarrow> rect" where
  "beam_rect l =
     (if is_horizontal l
      then Rect (rect_left (lb_box l)) (lb_pos l - beam_width l div 2)
                (rect_w (lb_box l)) (beam_width l)
      else Rect (lb_pos l - beam_width l div 2) (rect_top (lb_box l))
                (beam_width l) (rect_h (lb_box l)))"

definition check_collision :: "laser_beam \<Rightarrow> rect \<Rightarrow> bool" where
  "check_collision l player_rect =
     (if lb_state l \<noteq> Active then False
      else colliderect (beam_rect l) player_rect)"

text \<open>Position of a state in the order warning, active, done.\<close>

fun laser_rank :: "laser_state \<Rightarrow> nat" where
  "laser_rank Warning = 0"
| "laser_rank Active = 1"
| "laser_rank Done = 2"

section \<open>FIGHT mini-game (core/engine.py)\<close>

text \<open>
  \<open>BattleBox._process_fight_attack\<close>, reduced to the fields it reads and writes for the
  damage: the bar position, the enemy's hit points, and \<open>PLAYER_ATTACK_DAMAGE\<close> from
  \<open>core.settings\<close> as a parameter. Without an enemy the method returns \<open>None\<close>.
\<close>

definition damage_multiplier :: "real \<Rightarrow> real" where
  "damage_multiplier fight_bar_position =
     (let distance_from_center = \<bar>fight_bar_position - 0.5\<bar>
      in 1.0 - (distance_from_center * 0.8))"

definition fight_damage :: "real \<Rightarrow> real \<Rightarrow> int" where
  "fight_damage PLAYER_ATTACK_DAMAGE fight_bar_position =
     py_int (PLAYER_ATTACK_DAMAGE * damage_multiplier fight_bar_position)"

definition process_fight_attack :: "real \<Rightarrow> real \<Rightarrow> int option \<Rightarrow> (int \<times> int) option" where
  "process_fight_attack PLAYER_ATTACK_DAMAGE fight_bar_position enemy_hp =
     (case enemy_hp of
        None \<Rightarrow> None
      | Some h \<Rightarrow>
          (let damage = fight_damage PLAYER_ATTACK_DAMAGE fight_bar_position
           in Some (damage, max 0 (h - damage))))"

section \<open>Settings, errors and the random source\<close>

text \<open>
  The constants of \<open>core.settings\<close> that the attack manager reads are not part of the
  sources at hand; they are the fields of this record, a parameter of every definition
  that reads one.
\<close>

record settings =
  BULLET_BASE_SPEED :: real
  BULLET_SPEED_MULT :: real
  LINE_RAIN_INTERVAL :: real
  LINE_RAIN_BULLET_COUNT :: int
  CIRCLE_BURST_COUNT :: real
  CIRCLE_BURST_INTERVAL :: real
  TARGETING_INTERVAL :: real
  TARGETING_BULLETS_PER_SHOT :: int
  PATTERNS_PER_ROUND :: int
  ATTACK_DURATION :: int
  GAP_BETWEEN_ATTACKS :: int

datatype py_error = ValueError | IndexError | ZeroDivisionError

definition bind_err :: "py_error + 'a \<Rightarrow> ('a \<Rightarrow> py_error + 'b) \<Rightarrow> py_error + 'b" where
  "bind_err r f = (case r of Inl e \<Rightarrow> Inl e | Inr x \<Rightarrow> f x)"

text \<open>
  Python's global \<open>random\<close> state is a list of raw draws still to come; every call of the
  module consumes draws from its front (an exhausted list yields zeros). Each function
  below maps the raw draw onto the result set of the Python function, so that every
  outcome of the real generator is the outcome of some list of draws.
\<close>

definition next_draw :: "nat list \<Rightarrow> nat \<times> nat list" where
  "next_draw rs = (case rs of [] \<Rightarrow> (0, []) | r # rs' \<Rightarrow> (r, rs'))"

text \<open>\<open>random.random()\<close>: a multiple of \<open>1 / 2 ^ 53\<close> in \<open>[0, 1)\<close>.\<close>

definition random_random :: "nat list \<Rightarrow> real \<times> nat list" where
  "random_random rs = (real (fst (next_draw rs) mod 2 ^ 53) / 2 ^ 53, snd (next_draw rs))"

definition random_uniform :: "real \<Rightarrow> real \<Rightarrow> nat list \<Rightarrow> real \<times> nat list" where
  "random_uniform a b rs = (a + (b - a) * fst (random_random rs), snd (random_random rs))"

text \<open>\<open>random.randint(a, b)\<close> raises \<open>ValueError\<close> on an empty range.\<close>

definition random_randint :: "int \<Rightarrow> int \<Rightarrow> nat list \<Rightarrow> py_error + (int \<times> nat list)" where
  "random_randint a b rs =
     (if b < a then Inl ValueError
      else Inr (a + int (fst (next_draw rs)) mod (b - a + 1), snd (next_draw rs)))"

text \<open>\<open>random.choice(seq)\<close> raises \<open>IndexError\<close> on an empty sequence.\<close>

definition random_choice :: "'a list \<Rightarrow> nat list \<Rightarrow> py_error + ('a \<times> nat list)" where
  "random_choice xs rs =
     (if xs = [] then Inl IndexError
      else Inr (xs ! (fst (next_draw rs) mod length xs), snd (next_draw rs)))"

text \<open>\<open>random.sample(population, k)\<close>: \<open>k\<close> picks without replacement, each pick removing
  the chosen position from the pool; \<open>ValueError\<close> when \<open>k\<close> is negative or larger than
  the population.\<close>

fun sample_picks :: "'a list \<Rightarrow> nat \<Rightarrow> nat list \<Rightarrow> 'a list \<times> nat list" where
  "sample_picks pool 0 rs = ([], rs)"
| "sample_picks [] (Suc k) rs = ([], rs)"
| "sample_picks (p # ps) (Suc k) rs =
     (let i = fst (next_draw rs) mod length (p # ps);
          rest = sample_picks (take i (p # ps) @ drop (Suc i) (p # ps)) k (snd (next_draw rs))
      in ((p # ps) ! i # fst rest, snd rest))"

definition random_sample :: "'a list \<Rightarrow> int \<Rightarrow> nat list \<Rightarrow> py_error + ('a list \<times> nat list)" where
  "random_sample population k rs =
     (if k < 0 \<or> int (length population) < k then Inl ValueError
      else Inr (sample_picks population (nat k) rs))"

section \<open>Sprites of the pattern library (combat/patterns.py)\<close>

record bouncing_bullet =
  bb_rect :: rect
  bb_vx :: real
  bb_vy :: real
  bb_box :: rect
  max_bounces :: int
  bounce_count :: int

definition BouncingBullet_init ::
  "real \<Rightarrow> real \<Rightarrow> real \<Rightarrow> real \<Rightarrow> rect \<Rightarrow> int \<Rightarrow> bouncing_bullet" where
  "BouncingBullet_init x y vx vy box_rect mb =
     \<lparr>bb_rect = Rect (py_int x) (py_int y) 20 20, bb_vx = vx, bb_vy = vy,
      bb_box = box_rect, max_bounces = mb, bounce_count = 0\<rparr>"

record wave_bullet =
  wb_rect :: rect
  wb_x :: real
  wb_y :: real
  start_y :: real
  speed_x :: real
  amplitude :: real
  frequency :: real
  wb_box :: rect
  wb_time :: int

definition WaveBullet_init ::
  "real \<Rightarrow> real \<Rightarrow> real \<Rightarrow> real \<Rightarrow> real \<Rightarrow> rect \<Rightarrow> wave_bullet" where
  "WaveBullet_init x y sx amp freq box_rect =
     \<lparr>wb_rect = set_center (py_int x) (py_int y) (Rect 0 0 (6 * 2) (6 * 2)),
      wb_x = x, wb_y = y, start_y = y, speed_x = sx, amplitude = amp, frequency = freq,
      wb_box = box_rect, wb_time = 0\<rparr>"

text \<open>The attributes that \<open>_pattern_expanding_ring\<close> and \<open>_pattern_rotating_cross\<close> attach
  to the bullets they create.\<close>

record ring_attrs =
  expand_angle :: real
  expand_speed :: real
  expand_radius :: real
  ring_center_x :: int
  ring_center_y :: int

record cross_attrs =
  beam_index :: nat
  cross_distance :: int
  base_angle :: real

datatype sprite =
    LineBulletS projectile
  | CircleBulletS projectile
  | TargetingBulletS projectile
  | SpiralBulletS projectile
  | ExpandingRingBulletS projectile ring_attrs
  | RotatingCrossBulletS projectile cross_attrs
  | BouncingBulletS bouncing_bullet
  | WaveBulletS wave_bullet
  | HomingBladeS homing_blade

section \<open>Attack manager (combat/patterns.py)\<close>

definition BASIC_PATTERNS :: "string list" where
  "BASIC_PATTERNS =
     [''line_rain'', ''circle_burst'', ''targeting'', ''bouncing_walls'', ''spiral'',
      ''laser_warning'']"

definition COMPLEX_PATTERNS :: "string list" where
  "COMPLEX_PATTERNS =
     [''snake_wave'', ''homing_blades'', ''expanding_ring'', ''gravity_wells'',
      ''rotating_cross'']"

definition PATTERN_TYPES :: "string list" where
  "PATTERN_TYPES = BASIC_PATTERNS @ COMPLEX_PATTERNS"

text \<open>
  The state of an \<open>AttackManager\<close> together with the objects it shares with the battle
  box. Sprites are objects: \<open>heap\<close> holds every sprite ever created, a sprite's identity is
  its index there, and \<open>bullets_group\<close>, \<open>cross_bullets\<close> and \<open>homing_blades\<close> hold
  identities, so that a sprite changed through one list is changed in the others. A sprite
  is alive while it is a member of \<open>bullets_group\<close>; \<open>kill()\<close> removes it from the group.
  Lasers and gravity wells are held by the manager alone and are stored by value.
  \<open>rng\<close> is the state of Python's \<open>random\<close> module.
\<close>

record manager =
  box_rect :: rect
  heap :: "sprite list"
  bullets_group :: "nat list"
  attack_queue :: "string list"
  current_pattern_index :: nat
  pattern_timer :: int
  gap_timer :: int
  in_gap :: bool
  round_active :: bool
  current_pattern :: "string option"
  secondary_pattern :: "string option"
  difficulty :: real
  pattern_internal_timer :: int
  pattern_internal_timer_2 :: int
  lasers :: "laser_beam list"
  laser_spawn_timer :: int
  gravity_mode :: bool
  gravity_wells :: "gravity_well list"
  cross_bullets :: "nat list"
  cross_angle :: real
  cross_center :: "int \<times> int"
  ring_timer :: int
  homing_blades :: "nat list"
  patterns_per_round_attr :: "int option"
  rng :: "nat list"

definition rect_centerx :: "rect \<Rightarrow> int" where "rect_centerx r = rect_x r + rect_w r div 2"
definition rect_centery :: "rect \<Rightarrow> int" where "rect_centery r = rect_y r + rect_h r div 2"

text \<open>Creating a sprite and \<open>bullets_group.add\<close>; \<open>kill()\<close>; \<open>bullets_group.empty()\<close>.\<close>

definition new_sprite :: "sprite \<Rightarrow> manager \<Rightarrow> manager" where
  "new_sprite sp m = m\<lparr>heap := heap m @ [sp]\<rparr>"

definition group_add :: "nat \<Rightarrow> manager \<Rightarrow> manager" where
  "group_add i m = (if i \<in> set (bullets_group m) then m
                    else m\<lparr>bullets_group := bullets_group m @ [i]\<rparr>)"

definition spawn :: "sprite \<Rightarrow> manager \<Rightarrow> manager" where
  "spawn sp m = group_add (length (heap m)) (new_sprite sp m)"

definition kill :: "nat \<Rightarrow> manager \<Rightarrow> manager" where
  "kill i m = m\<lparr>bullets_group := filter (\<lambda>j. j \<noteq> i) (bullets_group m)\<rparr>"

definition alive :: "nat \<Rightarrow> manager \<Rightarrow> bool" where
  "alive i m \<longleftrightarrow> i \<in> set (bullets_group m)"

definition group_empty :: "manager \<Rightarrow> manager" where
  "group_empty m = m\<lparr>bullets_group := []\<rparr>"

text \<open>The calls of the \<open>random\<close> module, on the manager's random state.\<close>

definition m_random :: "manager \<Rightarrow> real \<times> manager" where
  "m_random m = (fst (random_random (rng m)), m\<lparr>rng := snd (random_random (rng m))\<rparr>)"

definition m_uniform :: "real \<Rightarrow> real \<Rightarrow> manager \<Rightarrow> real \<times> manager" where
  "m_uniform a b m =
     (fst (random_uniform a b (rng m)), m\<lparr>rng := snd (random_uniform a b (rng m))\<rparr>)"

definition m_randint :: "int \<Rightarrow> int \<Rightarrow> manager \<Rightarrow> py_error + (int \<times> manager)" where
  "m_randint a b m =
     bind_err (random_randint a b (rng m)) (\<lambda>r. Inr (fst r, m\<lparr>rng := snd r\<rparr>))"

definition m_choice :: "'a list \<Rightarrow> manager \<Rightarrow> py_error + ('a \<times> manager)" where
  "m_choice xs m =
     bind_err (random_choice xs (rng m)) (\<lambda>r. Inr (fst r, m\<lparr>rng := snd r\<rparr>))"

definition m_sample :: "'a list \<Rightarrow> int \<Rightarrow> manager \<Rightarrow> py_error + ('a list \<times> manager)" where
  "m_sample xs k m =
     bind_err (random_sample xs k (rng m)) (\<lambda>r. Inr (fst r, m\<lparr>rng := snd r\<rparr>))"

subsection \<open>Basic patterns\<close>

text \<open>The four patterns that can run as the secondary pattern keep their tick counter in
  \<open>pattern_internal_timer_2\<close> then, and in \<open>pattern_internal_timer\<close> otherwise.\<close>

definition tick_timer :: "bool \<Rightarrow> manager \<Rightarrow> manager" where
  "tick_timer secondary m =
     (if secondary then m\<lparr>pattern_internal_timer_2 := pattern_internal_timer_2 m + 1\<rparr>
      else m\<lparr>pattern_internal_timer := pattern_internal_timer m + 1\<rparr>)"

definition read_timer :: "bool \<Rightarrow> manager \<Rightarrow> int" where
  "read_timer secondary m =
     (if secondary then pattern_internal_timer_2 m else pattern_internal_timer m)"

definition write_timer :: "bool \<Rightarrow> int \<Rightarrow> manager \<Rightarrow> manager" where
  "write_timer secondary t m =
     (if secondary then m\<lparr>pattern_internal_timer_2 := t\<rparr>
      else m\<lparr>pattern_internal_timer := t\<rparr>)"

fun line_rain_spawn :: "settings \<Rightarrow> nat \<Rightarrow> manager \<Rightarrow> py_error + manager" where
  "line_rain_spawn S 0 m = Inr m"
| "line_rain_spawn S (Suc n) m =
     (case m_randint (rect_left (box_rect m) + 20) (rect_right (box_rect m) - 60) m of
        Inl e \<Rightarrow> Inl e
      | Inr (x, m1) \<Rightarrow>
          line_rain_spawn S n
            (spawn (LineBulletS (set_bounds (box_rect m1)
                      (LineBullet_init (BULLET_SPEED_MULT S) (real_of_int x)
                         (real_of_int (rect_top (box_rect m1) - 20)) 0
                         (BULLET_BASE_SPEED S * difficulty m1)))) m1))"

definition pattern_line_rain :: "settings \<Rightarrow> bool \<Rightarrow> manager \<Rightarrow> py_error + manager" where
  "pattern_line_rain S secondary m =
     (let m1 = tick_timer secondary m;
          timer = read_timer secondary m1
      in if difficulty m1 = 0 then Inl ZeroDivisionError
         else if timer \<ge> py_int (LINE_RAIN_INTERVAL S / difficulty m1)
         then (case line_rain_spawn S (nat (LINE_RAIN_BULLET_COUNT S)) m1 of
                 Inl e \<Rightarrow> Inl e
               | Inr m2 \<Rightarrow> Inr (write_timer secondary 0 m2))
         else Inr (write_timer secondary timer m1))"

definition circle_burst_bullet :: "settings \<Rightarrow> int \<Rightarrow> nat \<Rightarrow> manager \<Rightarrow> manager" where
  "circle_burst_bullet S count i m =
     (let angle = (2 * pi * real i) / real_of_int count;
          speed = BULLET_BASE_SPEED S * 1.5;
          vx = cos angle * speed;
          vy = sin angle * speed
      in spawn (CircleBulletS (set_bounds (box_rect m)
                  (CircleBullet_init (BULLET_SPEED_MULT S)
                     (real_of_int (rect_centerx (box_rect m)))
                     (real_of_int (rect_centery (box_rect m))) vx vy))) m)"

definition pattern_circle_burst :: "settings \<Rightarrow> bool \<Rightarrow> manager \<Rightarrow> py_error + manager" where
  "pattern_circle_burst S secondary m =
     (let m1 = tick_timer secondary m;
          timer = read_timer secondary m1
      in if difficulty m1 = 0 then Inl ZeroDivisionError
         else if timer \<ge> py_int (CIRCLE_BURST_INTERVAL S / difficulty m1)
         then (let count = py_int (CIRCLE_BURST_COUNT S * difficulty m1);
                   m2 = fold (circle_burst_bullet S count) [0..<nat count] m1
               in Inr (write_timer secondary 0 m2))
         else Inr (write_timer secondary timer m1))"

definition targeting_bullet ::
  "settings \<Rightarrow> real \<Rightarrow> real \<Rightarrow> int \<times> int \<Rightarrow> manager \<Rightarrow> manager" where
  "targeting_bullet S player_x player_y corner m =
     (let speed = BULLET_BASE_SPEED S * difficulty m
      in spawn (TargetingBulletS (set_bounds (box_rect m)
                  (TargetingBullet_init (BULLET_BASE_SPEED S) (BULLET_SPEED_MULT S)
                     (real_of_int (fst corner)) (real_of_int (snd corner))
                     player_x player_y (Some speed)))) m)"

definition pattern_targeting ::
  "settings \<Rightarrow> real \<Rightarrow> real \<Rightarrow> bool \<Rightarrow> manager \<Rightarrow> py_error + manager" where
  "pattern_targeting S player_x player_y secondary m =
     (let m1 = tick_timer secondary m;
          timer = read_timer secondary m1
      in if difficulty m1 = 0 then Inl ZeroDivisionError
         else if timer \<ge> py_int (TARGETING_INTERVAL S / difficulty m1)
         then (let corners =
                     [(rect_left (box_rect m1), rect_top (box_rect m1)),
                      (rect_right (box_rect m1), rect_top (box_rect m1)),
                      (rect_left (box_rect m1), rect_bottom (box_rect m1)),
                      (rect_right (box_rect m1), rect_bottom (box_rect m1))]
               in case m_sample corners
                         (min (TARGETING_BULLETS_PER_SHOT S) (int (length corners))) m1 of
                    Inl e \<Rightarrow> Inl e
                  | Inr (shot_corners, m2) \<Rightarrow>
                      Inr (write_timer secondary 0
                             (fold (targeting_bullet S player_x player_y) shot_corners m2)))
         else Inr (write_timer secondary timer m1))"

text \<open>The random position and velocity of a bouncing bullet, in the order in which the
  source draws them: the side, then per side the coordinate and the two velocity
  components.\<close>

definition bouncing_start ::
  "manager \<Rightarrow> py_error + ((real \<times> real \<times> real \<times> real) \<times> manager)" where
  "bouncing_start m =
     (case m_choice [''top'', ''bottom'', ''left'', ''right''] m of
        Inl e \<Rightarrow> Inl e
      | Inr (side, m1) \<Rightarrow>
          (if side = ''top'' then
             (case m_randint (rect_left (box_rect m1) + 20) (rect_right (box_rect m1) - 40) m1 of
                Inl e \<Rightarrow> Inl e
              | Inr (x, m2) \<Rightarrow>
                  (case m_choice [- 3, 3] m2 of
                     Inl e \<Rightarrow> Inl e
                   | Inr (vx, m3) \<Rightarrow>
                       Inr ((real_of_int x, real_of_int (rect_top (box_rect m3) + 10), vx,
                             fst (m_uniform 2 4 m3)), snd (m_uniform 2 4 m3))))
           else if side = ''bottom'' then
             (case m_randint (rect_left (box_rect m1) + 20) (rect_right (box_rect m1) - 40) m1 of
                Inl e \<Rightarrow> Inl e
              | Inr (x, m2) \<Rightarrow>
                  (case m_choice [- 3, 3] m2 of
                     Inl e \<Rightarrow> Inl e
                   | Inr (vx, m3) \<Rightarrow>
                       Inr ((real_of_int x, real_of_int (rect_bottom (box_rect m3) - 30), vx,
                             fst (m_uniform (- 4) (- 2) m3)), snd (m_uniform (- 4) (- 2) m3))))
           else if side = ''left'' then
             (case m_randint (rect_top (box_rect m1) + 20) (rect_bottom (box_rect m1) - 40) m1 of
                Inl e \<Rightarrow> Inl e
              | Inr (y, m2) \<Rightarrow>
                  (case m_choice [- 3, 3] (snd (m_uniform 2 4 m2)) of
                     Inl e \<Rightarrow> Inl e
                   | Inr (vy, m3) \<Rightarrow>
                       Inr ((real_of_int (rect_left (box_rect m3) + 10), real_of_int y,
                             fst (m_uniform 2 4 m2), vy), m3)))
           else
             (case m_randint (rect_top (box_rect m1) + 20) (rect_bottom (box_rect m1) - 40) m1 of
                Inl e \<Rightarrow> Inl e
              | Inr (y, m2) \<Rightarrow>
                  (case m_choice [- 3, 3] (snd (m_uniform (- 4) (- 2) m2)) of
                     Inl e \<Rightarrow> Inl e
                   | Inr (vy, m3) \<Rightarrow>
                       Inr ((real_of_int (rect_right (box_rect m3) - 30), real_of_int y,
                             fst (m_uniform (- 4) (- 2) m2), vy), m3)))))"

definition pattern_bouncing_walls :: "bool \<Rightarrow> manager \<Rightarrow> py_error + manager" where
  "pattern_bouncing_walls secondary m =
     (let m1 = tick_timer secondary m;
          timer = read_timer secondary m1
      in if difficulty m1 = 0 then Inl ZeroDivisionError
         else if timer \<ge> py_int (60 / difficulty m1)
         then (case bouncing_start m1 of
                 Inl e \<Rightarrow> Inl e
               | Inr ((x, y, vx, vy), m2) \<Rightarrow>
                   (case m_randint 3 4 m2 of
                      Inl e \<Rightarrow> Inl e
                    | Inr (mb, m3) \<Rightarrow>
                        Inr (write_timer secondary 0
                               (spawn (BouncingBulletS
                                  (BouncingBullet_init x y (vx * difficulty m3)
                                     (vy * difficulty m3) (box_rect m3) mb)) m3))))
         else Inr (write_timer secondary timer m1))"

definition spiral_bullet :: "settings \<Rightarrow> real \<Rightarrow> nat \<Rightarrow> manager \<Rightarrow> manager" where
  "spiral_bullet S base_angle' i m =
     (let angle = base_angle' + (real i * pi);
          speed = BULLET_BASE_SPEED S * 1.2;
          vx = cos angle * speed;
          vy = sin angle * speed
      in spawn (SpiralBulletS (set_bounds (box_rect m)
                  (CircleBullet_init (BULLET_SPEED_MULT S)
                     (real_of_int (rect_centerx (box_rect m)))
                     (real_of_int (rect_centery (box_rect m))) vx vy))) m)"

definition pattern_spiral :: "settings \<Rightarrow> manager \<Rightarrow> py_error + manager" where
  "pattern_spiral S m =
     (let m1 = m\<lparr>pattern_internal_timer := pattern_internal_timer m + 1\<rparr>
      in if pattern_internal_timer m1 \<ge> 3
         then (let base_angle' = real_of_int (pattern_timer m1) * 0.1;
                   m2 = fold (spiral_bullet S base_angle') [0..<2] m1
               in Inr (m2\<lparr>pattern_internal_timer := 0\<rparr>))
         else Inr m1)"

text \<open>\<open>LaserBeam(self.box_rect)\<close>: a random orientation, then a random position across it.\<close>

definition new_laser :: "manager \<Rightarrow> py_error + (laser_beam \<times> manager)" where
  "new_laser m =
     (case m_choice [True, False] m of
        Inl e \<Rightarrow> Inl e
      | Inr (horiz, m1) \<Rightarrow>
          (case (if horiz
                 then m_randint (rect_top (box_rect m1) + 20) (rect_bottom (box_rect m1) - 20) m1
                 else m_randint (rect_left (box_rect m1) + 20) (rect_right (box_rect m1) - 20) m1) of
             Inl e \<Rightarrow> Inl e
           | Inr (pos, m2) \<Rightarrow> Inr (LaserBeam_init (box_rect m2) horiz pos, m2)))"

definition pattern_laser_warning :: "manager \<Rightarrow> py_error + manager" where
  "pattern_laser_warning m =
     (let m1 = m\<lparr>laser_spawn_timer := laser_spawn_timer m + 1\<rparr>;
          m2 = m1\<lparr>lasers := filter (\<lambda>l. \<not> is_done l) (map LaserBeam_update (lasers m1))\<rparr>
      in if laser_spawn_timer m2 \<ge> 60
         then (case new_laser (m2\<lparr>laser_spawn_timer := 0\<rparr>) of
                 Inl e \<Rightarrow> Inl e
               | Inr (l, m3) \<Rightarrow> Inr (m3\<lparr>lasers := lasers m3 @ [l]\<rparr>))
         else Inr m2)"

subsection \<open>Complex patterns\<close>

text \<open>\<open>range(start, stop, 40)\<close> for the rows of a snake wave.\<close>

definition range_step40 :: "int \<Rightarrow> int \<Rightarrow> int list" where
  "range_step40 start stop =
     map (\<lambda>i. start + 40 * int i) [0..<(if start < stop then nat ((stop - start + 39) div 40) else 0)]"

definition wave_bullet_at :: "int \<Rightarrow> manager \<Rightarrow> manager" where
  "wave_bullet_at y m =
     spawn (WaveBulletS (WaveBullet_init (real_of_int (rect_left (box_rect m) - 10))
              (real_of_int y) (3 * difficulty m) 30 0.1 (box_rect m))) m"

definition pattern_snake_wave :: "manager \<Rightarrow> py_error + manager" where
  "pattern_snake_wave m =
     (let m1 = m\<lparr>pattern_internal_timer := pattern_internal_timer m + 1\<rparr>
      in if pattern_internal_timer m1 \<ge> 40
         then (let m2 = m1\<lparr>pattern_internal_timer := 0\<rparr>;
                   y_positions = range_step40 (rect_top (box_rect m2) + 10)
                                              (rect_bottom (box_rect m2) - 10)
               in Inr (fold wave_bullet_at y_positions m2))
         else Inr m1)"

text \<open>One round of the loop over \<open>self.homing_blades[:]\<close>: update the blade (which may
  kill it), re-latch the target while it aims, and drop a dead blade from the list.\<close>

definition blade_step :: "real \<Rightarrow> real \<Rightarrow> nat \<Rightarrow> manager \<Rightarrow> manager" where
  "blade_step player_x player_y i m =
     (if i < length (heap m) then
        (case heap m ! i of
           HomingBladeS b \<Rightarrow>
             (let b1 = fst (HomingBlade_update b);
                  m1 = (if snd (HomingBlade_update b) then kill i m else m);
                  b2 = (if hb_state b1 = Aiming then set_target player_x player_y b1 else b1);
                  m2 = m1\<lparr>heap := (heap m1)[i := HomingBladeS b2]\<rparr>
              in if \<not> alive i m2
                 then m2\<lparr>homing_blades := remove1 i (homing_blades m2)\<rparr>
                 else m2)
         | _ \<Rightarrow> m)
      else m)"

definition blade_position :: "string \<Rightarrow> manager \<Rightarrow> py_error + ((int \<times> int) \<times> manager)" where
  "blade_position edge m =
     (if edge = ''top'' then
        (case m_randint (rect_left (box_rect m) + 30) (rect_right (box_rect m) - 30) m of
           Inl e \<Rightarrow> Inl e
         | Inr (x, m1) \<Rightarrow> Inr ((x, rect_top (box_rect m1) + 20), m1))
      else if edge = ''bottom'' then
        (case m_randint (rect_left (box_rect m) + 30) (rect_right (box_rect m) - 30) m of
           Inl e \<Rightarrow> Inl e
         | Inr (x, m1) \<Rightarrow> Inr ((x, rect_bottom (box_rect m1) - 20), m1))
      else if edge = ''left'' then
        (case m_randint (rect_top (box_rect m) + 30) (rect_bottom (box_rect m) - 30) m of
           Inl e \<Rightarrow> Inl e
         | Inr (y, m1) \<Rightarrow> Inr ((rect_left (box_rect m1) + 20, y), m1))
      else
        (case m_randint (rect_top (box_rect m) + 30) (rect_bottom (box_rect m) - 30) m of
           Inl e \<Rightarrow> Inl e
         | Inr (y, m1) \<Rightarrow> Inr ((rect_right (box_rect m1) - 20, y), m1)))"

fun spawn_blades :: "real \<Rightarrow> real \<Rightarrow> string list \<Rightarrow> manager \<Rightarrow> py_error + manager" where
  "spawn_blades player_x player_y [] m = Inr m"
| "spawn_blades player_x player_y (edge # edges) m =
     (case blade_position edge m of
        Inl e \<Rightarrow> Inl e
      | Inr ((x, y), m1) \<Rightarrow>
          (let blade = set_target player_x player_y
                         (HomingBlade_init (real_of_int x) (real_of_int y) (box_rect m1));
               i = length (heap m1);
               m2 = new_sprite (HomingBladeS blade) m1;
               m3 = m2\<lparr>homing_blades := homing_blades m2 @ [i]\<rparr>
           in spawn_blades player_x player_y edges (group_add i m3)))"

definition pattern_homing_blades :: "real \<Rightarrow> real \<Rightarrow> manager \<Rightarrow> py_error + manager" where
  "pattern_homing_blades player_x player_y m =
     (let m1 = m\<lparr>pattern_internal_timer := pattern_internal_timer m + 1\<rparr>;
          m2 = fold (blade_step player_x player_y) (homing_blades m1) m1
      in if pattern_internal_timer m2 \<ge> 90
         then (case m_randint 2 3 (m2\<lparr>pattern_internal_timer := 0\<rparr>) of
                 Inl e \<Rightarrow> Inl e
               | Inr (num_blades, m3) \<Rightarrow>
                   (case m_sample [''top'', ''bottom'', ''left'', ''right''] num_blades m3 of
                      Inl e \<Rightarrow> Inl e
                    | Inr (chosen_edges, m4) \<Rightarrow>
                        spawn_blades player_x player_y chosen_edges m4))
         else Inr m2)"

definition ring_bullet :: "settings \<Rightarrow> int \<Rightarrow> int \<Rightarrow> nat list \<Rightarrow> nat \<Rightarrow> manager \<Rightarrow> manager" where
  "ring_bullet S center_x center_y gaps i m =
     (if i \<in> set gaps then m
      else spawn (ExpandingRingBulletS
                    (set_bounds (box_rect m)
                       (CircleBullet_init (BULLET_SPEED_MULT S) (real_of_int center_x)
                          (real_of_int center_y) 0 0))
                    \<lparr>expand_angle = (2 * pi * real i) / 16, expand_speed = 2,
                     expand_radius = 10, ring_center_x = center_x,
                     ring_center_y = center_y\<rparr>) m)"

text \<open>One round of the loop over the sprites of the group that carry \<open>expand_angle\<close>.\<close>

definition ring_step :: "nat \<Rightarrow> manager \<Rightarrow> manager" where
  "ring_step i m =
     (if i < length (heap m) then
        (case heap m ! i of
           ExpandingRingBulletS p a \<Rightarrow>
             (let a1 = a\<lparr>expand_radius := expand_radius a + expand_speed a * difficulty m\<rparr>;
                  p1 = p\<lparr>p_rect := set_center
                          (py_int (real_of_int (ring_center_x a1)
                                     + cos (expand_angle a1) * expand_radius a1))
                          (py_int (real_of_int (ring_center_y a1)
                                     + sin (expand_angle a1) * expand_radius a1))
                          (p_rect p)\<rparr>;
                  m1 = m\<lparr>heap := (heap m)[i := ExpandingRingBulletS p1 a1]\<rparr>
              in if expand_radius a1
                      > real_of_int (max (rect_w (box_rect m1)) (rect_h (box_rect m1)))
                 then kill i m1 else m1)
         | _ \<Rightarrow> m)
      else m)"

definition pattern_expanding_ring :: "settings \<Rightarrow> manager \<Rightarrow> py_error + manager" where
  "pattern_expanding_ring S m =
     (let m1 = m\<lparr>ring_timer := ring_timer m + 1\<rparr>
      in case (if ring_timer m1 \<ge> 100
               then (case m_randint (rect_left (box_rect m1) + 50) (rect_right (box_rect m1) - 50)
                            (m1\<lparr>ring_timer := 0\<rparr>) of
                       Inl e \<Rightarrow> Inl e
                     | Inr (center_x, m2) \<Rightarrow>
                         (case m_randint (rect_top (box_rect m2) + 50)
                                 (rect_bottom (box_rect m2) - 50) m2 of
                            Inl e \<Rightarrow> Inl e
                          | Inr (center_y, m3) \<Rightarrow>
                              (case m_sample [0..<16] 2 m3 of
                                 Inl e \<Rightarrow> Inl e
                               | Inr (gaps, m4) \<Rightarrow>
                                   Inr (fold (ring_bullet S center_x center_y gaps) [0..<16] m4))))
               else Inr m1) of
           Inl e \<Rightarrow> Inl e
         | Inr m5 \<Rightarrow> Inr (fold ring_step (bullets_group m5) m5))"

text \<open>\<open>math.atan2\<close> on integer arguments.\<close>

definition atan2 :: "real \<Rightarrow> real \<Rightarrow> real" where
  "atan2 y x =
     (if x > 0 then arctan (y / x)
      else if x < 0 \<and> y \<ge> 0 then arctan (y / x) + pi
      else if x < 0 then arctan (y / x) - pi
      else if y > 0 then pi / 2
      else if y < 0 then - pi / 2
      else 0)"

definition pattern_gravity_wells :: "settings \<Rightarrow> real \<Rightarrow> real \<Rightarrow> manager \<Rightarrow> py_error + manager" where
  "pattern_gravity_wells S player_x player_y m =
     (let m1 = m\<lparr>pattern_internal_timer := pattern_internal_timer m + 1\<rparr>
      in case (if gravity_wells m1 = []
               then (case m_choice [True, False] m1 of
                       Inl e \<Rightarrow> Inl e
                     | Inr (rp, m2) \<Rightarrow>
                         Inr (m2\<lparr>gravity_wells := gravity_wells m2 @
                                [GravityWell_init (real_of_int (rect_centerx (box_rect m2)))
                                   (real_of_int (rect_centery (box_rect m2))) 0.4 rp
                                   (ATTACK_DURATION S)]\<rparr>))
               else Inr m1) of
           Inl e \<Rightarrow> Inl e
         | Inr m3 \<Rightarrow>
             (let m4 = m3\<lparr>gravity_wells := map GravityWell_update (gravity_wells m3)\<rparr>;
                  m5 = m4\<lparr>gravity_mode := True\<rparr>
              in if pattern_internal_timer m5 \<ge> 30
                 then (case m_choice [rect_left (box_rect m5), rect_right (box_rect m5)]
                              (m5\<lparr>pattern_internal_timer := 0\<rparr>) of
                         Inl e \<Rightarrow> Inl e
                       | Inr (corner_x, m6) \<Rightarrow>
                           (case m_choice [rect_top (box_rect m6), rect_bottom (box_rect m6)] m6 of
                              Inl e \<Rightarrow> Inl e
                            | Inr (corner_y, m7) \<Rightarrow>
                                (let angle =
                                       atan2 (real_of_int (rect_centery (box_rect m7) - corner_y))
                                             (real_of_int (rect_centerx (box_rect m7) - corner_x))
                                         + fst (m_uniform (- 0.5) 0.5 m7);
                                     m8 = snd (m_uniform (- 0.5) 0.5 m7);
                                     speed = BULLET_BASE_SPEED S * 1.2;
                                     vx = cos angle * speed;
                                     vy = sin angle * speed
                                 in Inr (spawn (CircleBulletS (set_bounds (box_rect m8)
                                           (CircleBullet_init (BULLET_SPEED_MULT S)
                                              (real_of_int corner_x) (real_of_int corner_y)
                                              vx vy))) m8))))
                 else Inr m5))"

definition cross_bullet :: "settings \<Rightarrow> nat \<times> nat \<Rightarrow> manager \<Rightarrow> manager" where
  "cross_bullet S ij m =
     (let angle = real (fst ij) * pi / 2;
          i = length (heap m);
          m1 = new_sprite (RotatingCrossBulletS
                 (set_bounds (box_rect m)
                    (CircleBullet_init (BULLET_SPEED_MULT S)
                       (real_of_int (fst (cross_center m)))
                       (real_of_int (snd (cross_center m))) 0 0))
                 \<lparr>beam_index = fst ij, cross_distance = 30 + int (snd ij) * 25,
                  base_angle = angle\<rparr>) m;
          m2 = m1\<lparr>cross_bullets := cross_bullets m1 @ [i]\<rparr>
      in group_add i m2)"

definition cross_step :: "nat \<Rightarrow> manager \<Rightarrow> manager" where
  "cross_step i m =
     (if i < length (heap m) then
        (case heap m ! i of
           RotatingCrossBulletS p a \<Rightarrow>
             (let angle = base_angle a + cross_angle m;
                  p1 = p\<lparr>p_rect := set_center
                          (py_int (real_of_int (fst (cross_center m))
                                     + cos angle * real_of_int (cross_distance a)))
                          (py_int (real_of_int (snd (cross_center m))
                                     + sin angle * real_of_int (cross_distance a)))
                          (p_rect p)\<rparr>
              in m\<lparr>heap := (heap m)[i := RotatingCrossBulletS p1 a]\<rparr>)
         | _ \<Rightarrow> m)
      else m)"

fun cross_rain :: "settings \<Rightarrow> nat \<Rightarrow> manager \<Rightarrow> py_error + manager" where
  "cross_rain S 0 m = Inr m"
| "cross_rain S (Suc n) m =
     (case m_randint (rect_left (box_rect m) + 20) (rect_right (box_rect m) - 20) m of
        Inl e \<Rightarrow> Inl e
      | Inr (x, m1) \<Rightarrow>
          cross_rain S n
            (spawn (CircleBulletS (set_bounds (box_rect m1)
                      (CircleBullet_init (BULLET_SPEED_MULT S) (real_of_int x)
                         (real_of_int (rect_top (box_rect m1) - 10)) 0
                         (BULLET_BASE_SPEED S * 0.8)))) m1))"

definition pattern_rotating_cross :: "settings \<Rightarrow> real \<Rightarrow> real \<Rightarrow> manager \<Rightarrow> py_error + manager" where
  "pattern_rotating_cross S player_x player_y m =
     (let m1 = (if cross_bullets m = []
                then fold (cross_bullet S)
                       (concat (map (\<lambda>i. map (\<lambda>j. (i, j)) [0..<8]) [0..<4]))
                       (m\<lparr>cross_center := (rect_centerx (box_rect m), rect_centery (box_rect m))\<rparr>)
                else m);
          m2 = m1\<lparr>cross_angle := cross_angle m1 + 0.02 * difficulty m1\<rparr>;
          m3 = fold cross_step (cross_bullets m2) m2;
          m4 = m3\<lparr>pattern_internal_timer := pattern_internal_timer m3 + 1\<rparr>
      in if pattern_internal_timer m4 \<ge> 60
         then cross_rain S 2 (m4\<lparr>pattern_internal_timer := 0\<rparr>)
         else Inr m4)"

subsection \<open>Round scheduler\<close>

text \<open>A Python value used as a condition: \<open>None\<close> and the empty string are falsy.\<close>

definition truthy :: "string option \<Rightarrow> bool" where
  "truthy v = (case v of None \<Rightarrow> False | Some s \<Rightarrow> s \<noteq> [])"

text \<open>The choice of the secondary pattern for the current pattern, shared by
  \<open>_start_new_round\<close>, \<open>_next_pattern\<close> and \<open>start_round_with_pattern_count\<close>:
  \<open>random.random()\<close> is drawn first, \<open>random.choice\<close> only when it is below 0.3.\<close>

definition choose_secondary :: "manager \<Rightarrow> py_error + manager" where
  "choose_secondary m =
     (case current_pattern m of
        None \<Rightarrow> Inr (m\<lparr>secondary_pattern := None\<rparr>)
      | Some cur \<Rightarrow>
          (if cur \<in> set BASIC_PATTERNS then
             (let other_basic = filter (\<lambda>p. p \<noteq> cur) BASIC_PATTERNS;
                  m1 = snd (m_random m)
              in if fst (m_random m) < 0.3
                 then (case m_choice other_basic m1 of
                         Inl e \<Rightarrow> Inl e
                       | Inr (p, m2) \<Rightarrow> Inr (m2\<lparr>secondary_pattern := Some p\<rparr>))
                 else Inr (m1\<lparr>secondary_pattern := None\<rparr>))
           else Inr (m\<lparr>secondary_pattern := None\<rparr>)))"

text \<open>\<open>while len(self.attack_queue) < n: self.attack_queue.append(random.choice(...))\<close>.
  Every round makes the queue one longer, so the loop runs \<open>n - len\<close> times; the
  recursion is on that number.\<close>

fun fill_queue :: "nat \<Rightarrow> manager \<Rightarrow> py_error + manager" where
  "fill_queue 0 m = Inr m"
| "fill_queue (Suc k) m =
     (case m_choice PATTERN_TYPES m of
        Inl e \<Rightarrow> Inl e
      | Inr (p, m1) \<Rightarrow> fill_queue k (m1\<lparr>attack_queue := attack_queue m1 @ [p]\<rparr>))"

text \<open>The assignments that end \<open>_start_new_round\<close> and
  \<open>start_round_with_pattern_count\<close>.\<close>

definition reset_round_fields :: "manager \<Rightarrow> manager" where
  "reset_round_fields m =
     m\<lparr>pattern_timer := 0, gap_timer := 0, in_gap := False, round_active := True,
       pattern_internal_timer := 0, pattern_internal_timer_2 := 0, lasers := [],
       laser_spawn_timer := 0, gravity_mode := False, gravity_wells := [],
       cross_bullets := [], cross_angle := 0, ring_timer := 0, homing_blades := []\<rparr>"

text \<open>From \<open>self.current_pattern_index = 0\<close> on; \<open>self.attack_queue[0]\<close> raises
  \<open>IndexError\<close> on an empty queue.\<close>

definition begin_round :: "manager \<Rightarrow> py_error + manager" where
  "begin_round m =
     (case attack_queue m of
        [] \<Rightarrow> Inl IndexError
      | p # _ \<Rightarrow>
          (case choose_secondary (m\<lparr>current_pattern_index := 0, current_pattern := Some p\<rparr>) of
             Inl e \<Rightarrow> Inl e
           | Inr m1 \<Rightarrow> Inr (reset_round_fields m1)))"

definition start_new_round :: "settings \<Rightarrow> manager \<Rightarrow> py_error + manager" where
  "start_new_round S m =
     (let all_patterns = PATTERN_TYPES
      in case m_sample all_patterns (min (PATTERNS_PER_ROUND S) (int (length all_patterns))) m of
           Inl e \<Rightarrow> Inl e
         | Inr (q, m1) \<Rightarrow>
             (case fill_queue (nat (PATTERNS_PER_ROUND S - int (length q)))
                     (m1\<lparr>attack_queue := q\<rparr>) of
                Inl e \<Rightarrow> Inl e
              | Inr m2 \<Rightarrow> begin_round m2))"

definition start_round :: "settings \<Rightarrow> manager \<Rightarrow> py_error + manager" where
  "start_round S m = start_new_round S m"

definition start_round_with_pattern_count :: "int \<Rightarrow> manager \<Rightarrow> py_error + manager" where
  "start_round_with_pattern_count patterns_count m =
     (let all_patterns = PATTERN_TYPES;
          patterns_count' = max 1 (min patterns_count (int (length all_patterns)))
      in case m_sample all_patterns patterns_count' m of
           Inl e \<Rightarrow> Inl e
         | Inr (q, m1) \<Rightarrow>
             (case fill_queue (nat (patterns_count' - int (length q)))
                     (m1\<lparr>attack_queue := q\<rparr>) of
                Inl e \<Rightarrow> Inl e
              | Inr m2 \<Rightarrow> begin_round m2))"

text \<open>The fields as \<open>__init__\<close> sets them before it starts the first round; the sprite
  group is the one the battle box passes in.\<close>

definition blank_manager :: "rect \<Rightarrow> sprite list \<Rightarrow> nat list \<Rightarrow> nat list \<Rightarrow> manager" where
  "blank_manager box sprites grp rs =
     \<lparr>box_rect = box, heap = sprites, bullets_group = grp, attack_queue = [],
      current_pattern_index = 0, pattern_timer = 0, gap_timer = 0, in_gap = False,
      round_active = False, current_pattern = None, secondary_pattern = None,
      difficulty = 1.0, pattern_internal_timer = 0, pattern_internal_timer_2 = 0,
      lasers = [], laser_spawn_timer = 0, gravity_mode = False, gravity_wells = [],
      cross_bullets = [], cross_angle = 0, cross_center = (0, 0), ring_timer = 0,
      homing_blades = [], patterns_per_round_attr = None, rng = rs\<rparr>"

definition AttackManager_init ::
  "settings \<Rightarrow> rect \<Rightarrow> sprite list \<Rightarrow> nat list \<Rightarrow> nat list \<Rightarrow> py_error + manager" where
  "AttackManager_init S box sprites grp rs =
     start_new_round S (blank_manager box sprites grp rs)"

definition execute_current_pattern ::
  "settings \<Rightarrow> real \<Rightarrow> real \<Rightarrow> manager \<Rightarrow> py_error + manager" where
  "execute_current_pattern S player_x player_y m =
     (let pattern = current_pattern m
      in if pattern = Some ''line_rain'' then pattern_line_rain S False m
         else if pattern = Some ''circle_burst'' then pattern_circle_burst S False m
         else if pattern = Some ''targeting'' then pattern_targeting S player_x player_y False m
         else if pattern = Some ''bouncing_walls'' then pattern_bouncing_walls False m
         else if pattern = Some ''spiral'' then pattern_spiral S m
         else if pattern = Some ''laser_warning'' then pattern_laser_warning m
         else if pattern = Some ''snake_wave'' then pattern_snake_wave m
         else if pattern = Some ''homing_blades'' then pattern_homing_blades player_x player_y m
         else if pattern = Some ''expanding_ring'' then pattern_expanding_ring S m
         else if pattern = Some ''gravity_wells'' then pattern_gravity_wells S player_x player_y m
         else if pattern = Some ''rotating_cross'' then pattern_rotating_cross S player_x player_y m
         else Inr m)"

definition execute_secondary_pattern ::
  "settings \<Rightarrow> real \<Rightarrow> real \<Rightarrow> manager \<Rightarrow> py_error + manager" where
  "execute_secondary_pattern S player_x player_y m =
     (let pattern = secondary_pattern m
      in if pattern = Some ''line_rain'' then pattern_line_rain S True m
         else if pattern = Some ''circle_burst'' then pattern_circle_burst S True m
         else if pattern = Some ''targeting'' then pattern_targeting S player_x player_y True m
         else if pattern = Some ''bouncing_walls'' then pattern_bouncing_walls True m
         else Inr m)"

definition end_current_pattern :: "manager \<Rightarrow> manager" where
  "end_current_pattern m =
     (group_empty m)\<lparr>lasers := [], gravity_mode := False, gravity_wells := [],
                     cross_bullets := [], homing_blades := [], in_gap := True,
                     gap_timer := 0\<rparr>"

definition next_pattern :: "manager \<Rightarrow> py_error + manager" where
  "next_pattern m =
     (let m1 = m\<lparr>current_pattern_index := current_pattern_index m + 1\<rparr>
      in if current_pattern_index m1 \<ge> length (attack_queue m1)
         then Inr (m1\<lparr>round_active := False, current_pattern := None\<rparr>)
         else choose_secondary
                (m1\<lparr>current_pattern := Some (attack_queue m1 ! current_pattern_index m1),
                    pattern_timer := 0, pattern_internal_timer := 0,
                    pattern_internal_timer_2 := 0, laser_spawn_timer := 0\<rparr>))"

text \<open>\<open>AttackManager.update\<close>: the returned flag and the new state, or the exception that
  a pattern raised.\<close>

definition AttackManager_update ::
  "settings \<Rightarrow> real \<Rightarrow> real \<Rightarrow> manager \<Rightarrow> py_error + (bool \<times> manager)" where
  "AttackManager_update S player_x player_y m =
     (if \<not> round_active m then Inr (False, m)
      else if in_gap m then
        (let m1 = m\<lparr>gap_timer := gap_timer m + 1\<rparr>
         in if gap_timer m1 \<ge> GAP_BETWEEN_ATTACKS S
            then (case next_pattern (m1\<lparr>in_gap := False, gap_timer := 0\<rparr>) of
                    Inl e \<Rightarrow> Inl e
                  | Inr m2 \<Rightarrow> Inr (True, m2))
            else Inr (True, m1))
      else
        (let m1 = m\<lparr>pattern_timer := pattern_timer m + 1\<rparr>
         in if pattern_timer m1 \<ge> ATTACK_DURATION S
            then Inr (True, end_current_pattern m1)
            else (case execute_current_pattern S player_x player_y m1 of
                    Inl e \<Rightarrow> Inl e
                  | Inr m2 \<Rightarrow>
                      (if truthy (secondary_pattern m2)
                       then (case execute_secondary_pattern S player_x player_y m2 of
                               Inl e \<Rightarrow> Inl e
                             | Inr m3 \<Rightarrow> Inr (True, m3))
                       else Inr (True, m2)))))"

definition is_round_active :: "manager \<Rightarrow> bool" where
  "is_round_active m = round_active m"

definition get_remaining_attacks :: "manager \<Rightarrow> int" where
  "get_remaining_attacks m = int (length (attack_queue m)) - int (current_pattern_index m)"

definition check_laser_collision :: "manager \<Rightarrow> rect \<Rightarrow> bool" where
  "check_laser_collision m player_rect \<longleftrightarrow>
     (\<exists>l \<in> set (lasers m). check_collision l player_rect)"

definition get_gravity_force :: "manager \<Rightarrow> real \<Rightarrow> real \<Rightarrow> real \<times> real" where
  "get_gravity_force m player_x player_y =
     fold (\<lambda>w total. (fst total + fst (apply_force w player_x player_y),
                        snd total + snd (apply_force w player_x player_y)))
       (gravity_wells m) (0, 0)"

definition is_gravity_mode :: "manager \<Rightarrow> bool" where
  "is_gravity_mode m \<longleftrightarrow> gravity_mode m \<or> length (gravity_wells m) > 0"

definition reset :: "manager \<Rightarrow> manager" where
  "reset m =
     (group_empty m)\<lparr>attack_queue := [], current_pattern := None, secondary_pattern := None,
                     current_pattern_index := 0, pattern_timer := 0, gap_timer := 0,
                     in_gap := False, round_active := False, pattern_internal_timer := 0,
                     pattern_internal_timer_2 := 0, lasers := [], laser_spawn_timer := 0,
                     gravity_mode := False, gravity_wells := [], cross_bullets := [],
                     cross_angle := 0, ring_timer := 0, homing_blades := []\<rparr>"

definition set_difficulty :: "real \<Rightarrow> manager \<Rightarrow> manager" where
  "set_difficulty d m = m\<lparr>difficulty := max 0.5 (min d 3.0)\<rparr>"

definition clear_bullets :: "manager \<Rightarrow> manager" where
  "clear_bullets m =
     (group_empty m)\<lparr>lasers := [], gravity_mode := False, gravity_wells := [],
                     cross_bullets := [], homing_blades := []\<rparr>"

definition set_patterns_per_round :: "int \<Rightarrow> manager \<Rightarrow> manager" where
  "set_patterns_per_round count m = m\<lparr>patterns_per_round_attr := Some (max 1 count)\<rparr>"

text \<open>
  The states an attack manager can be in: the constructor's result, followed by any
  sequence of its public methods that return normally. The battle box shares the sprite
  group and the sprites with the manager and changes them between two calls
  (\<open>bullets.update()\<close>, \<open>bullets.empty()\<close>), which is the last rule.
\<close>

inductive reachable :: "settings \<Rightarrow> manager \<Rightarrow> bool" for S :: settings where
  r_init: "AttackManager_init S box sprites grp rs = Inr m \<Longrightarrow> reachable S m"
| r_update: "reachable S m \<Longrightarrow> AttackManager_update S px py m = Inr (b, m') \<Longrightarrow> reachable S m'"
| r_start_round: "reachable S m \<Longrightarrow> start_round S m = Inr m' \<Longrightarrow> reachable S m'"
| r_start_count:
    "reachable S m \<Longrightarrow> start_round_with_pattern_count n m = Inr m' \<Longrightarrow> reachable S m'"
| r_reset: "reachable S m \<Longrightarrow> reachable S (reset m)"
| r_set_difficulty: "reachable S m \<Longrightarrow> reachable S (set_difficulty d m)"
| r_clear_bullets: "reachable S m \<Longrightarrow> reachable S (clear_bullets m)"
| r_set_patterns: "reachable S m \<Longrightarrow> reachable S (set_patterns_per_round c m)"
| r_battle_box: "reachable S m \<Longrightarrow> reachable S (m\<lparr>heap := h, bullets_group := g\<rparr>)"

text \<open>The pair of current and secondary pattern is well formed: there is a current
  pattern, and a secondary pattern is a basic pattern other than the current one, which
  is basic too.\<close>

definition secondary_ok :: "manager \<Rightarrow> bool" where
  "secondary_ok m =
     (case current_pattern m of
        None \<Rightarrow> False
      | Some cur \<Rightarrow>
          (case secondary_pattern m of
             None \<Rightarrow> True
           | Some sec \<Rightarrow> sec \<in> set BASIC_PATTERNS \<and> sec \<noteq> cur \<and> cur \<in> set BASIC_PATTERNS))"

text \<open>The fields that belong to the scheduler; no pattern function writes them.\<close>

definition sched ::
  "manager \<Rightarrow> string option \<times> string option \<times> bool \<times> string list \<times> nat \<times> bool \<times> int \<times> int" where
  "sched m =
     (current_pattern m, secondary_pattern m, round_active m, attack_queue m,
      current_pattern_index m, in_gap m, pattern_timer m, gap_timer m)"

text \<open>Sample settings and a sample arena, to evaluate the definitions on concrete inputs.\<close>

definition sample_settings :: settings where
  "sample_settings =
     \<lparr>BULLET_BASE_SPEED = 3, BULLET_SPEED_MULT = 1, LINE_RAIN_INTERVAL = 30,
      LINE_RAIN_BULLET_COUNT = 3, CIRCLE_BURST_COUNT = 12, CIRCLE_BURST_INTERVAL = 60,
      TARGETING_INTERVAL = 45, TARGETING_BULLETS_PER_SHOT = 2, PATTERNS_PER_ROUND = 3,
      ATTACK_DURATION = 300, GAP_BETWEEN_ATTACKS = 60\<rparr>"

definition sample_box :: rect where
  "sample_box = Rect 250 300 300 200"

text \<open>A sample round of one pattern in the sample arena, with no sprite yet and a random
  source that yields zeros.\<close>

definition sample_round :: "string \<Rightarrow> string option \<Rightarrow> manager" where
  "sample_round cur sec =
     (blank_manager sample_box [] [] [])
       \<lparr>attack_queue := [cur], round_active := True, current_pattern := Some cur,
        secondary_pattern := sec\<rparr>"

section \<open>Random draws and sampling\<close>

lemma remove_nth_parts:
  assumes "i < length xs"
  shows "set (take i xs @ drop (Suc i) xs) \<subseteq> set xs"
    and "length (take i xs @ drop (Suc i) xs) = length xs - 1"
    and "distinct xs \<Longrightarrow> distinct (take i xs @ drop (Suc i) xs)"
    and "distinct xs \<Longrightarrow> xs ! i \<notin> set (take i xs @ drop (Suc i) xs)"
proof -
  have d: "xs = take i xs @ xs ! i # drop (Suc i) xs"
    using assms by (rule id_take_nth_drop)
  show "set (take i xs @ drop (Suc i) xs) \<subseteq> set xs"
    by (metis append_take_drop_id set_append set_drop_subset_set_drop le_SucI order_refl
        Un_mono subset_refl set_take_subset sup.bounded_iff sup_ge1 set_drop_subset)
  show "length (take i xs @ drop (Suc i) xs) = length xs - 1"
    using assms by simp
  show "distinct xs \<Longrightarrow> distinct (take i xs @ drop (Suc i) xs)"
    by (subst (asm) d) auto
  show "distinct xs \<Longrightarrow> xs ! i \<notin> set (take i xs @ drop (Suc i) xs)"
    by (subst (asm) d) auto
qed

lemma sample_picks_length:
  "length (fst (sample_picks pool k rs)) = min k (length pool)"
proof (induction pool k rs rule: sample_picks.induct)
  case (1 pool rs)
  then show ?case by simp
next
  case (2 k rs)
  then show ?case by simp
next
  case (3 p ps k rs)
  let ?i = "fst (next_draw rs) mod length (p # ps)"
  have i: "?i < length (p # ps)" by simp
  have "length (fst (sample_picks (take ?i (p # ps) @ drop (Suc ?i) (p # ps)) k (snd (next_draw rs))))
        = min k (length (take ?i (p # ps) @ drop (Suc ?i) (p # ps)))"
    using 3 by simp
  also have "\<dots> = min k (length (p # ps) - 1)"
    using remove_nth_parts(2) [OF i] by simp
  finally show ?case by (simp add: Let_def)
qed

lemma sample_picks_subset:
  "set (fst (sample_picks pool k rs)) \<subseteq> set pool"
proof (induction pool k rs rule: sample_picks.induct)
  case (1 pool rs)
  then show ?case by simp
next
  case (2 k rs)
  then show ?case by simp
next
  case (3 p ps k rs)
  let ?i = "fst (next_draw rs) mod length (p # ps)"
  have i: "?i < length (p # ps)" by simp
  have a: "set (fst (sample_picks (take ?i (p # ps) @ drop (Suc ?i) (p # ps)) k (snd (next_draw rs))))
        \<subseteq> set (take ?i (p # ps) @ drop (Suc ?i) (p # ps))"
    using 3 by simp
  have b: "set (take ?i (p # ps) @ drop (Suc ?i) (p # ps)) \<subseteq> set (p # ps)"
    by (rule remove_nth_parts(1) [OF i])
  have c: "(p # ps) ! ?i \<in> set (p # ps)" using i by (rule nth_mem)
  show ?case using a b c by (simp add: Let_def del: nth_Cons_Suc take_Suc_Cons drop_Suc_Cons) blast
qed

lemma sample_picks_distinct:
  "distinct pool \<Longrightarrow> distinct (fst (sample_picks pool k rs))"
proof (induction pool k rs rule: sample_picks.induct)
  case (1 pool rs)
  then show ?case by simp
next
  case (2 k rs)
  then show ?case by simp
next
  case (3 p ps k rs)
  let ?i = "fst (next_draw rs) mod length (p # ps)"
  let ?rest = "take ?i (p # ps) @ drop (Suc ?i) (p # ps)"
  have i: "?i < length (p # ps)" by simp
  have d: "distinct ?rest" using remove_nth_parts(3) [OF i] 3(2) by blast
  have a: "distinct (fst (sample_picks ?rest k (snd (next_draw rs))))"
    using 3(1) d by simp
  have n: "(p # ps) ! ?i \<notin> set ?rest" using remove_nth_parts(4) [OF i] 3(2) by blast
  have s: "set (fst (sample_picks ?rest k (snd (next_draw rs)))) \<subseteq> set ?rest"
    by (rule sample_picks_subset)
  have "(p # ps) ! ?i \<notin> set (fst (sample_picks ?rest k (snd (next_draw rs))))"
    using n s by blast
  then show ?case using a by (simp add: Let_def del: nth_Cons_Suc take_Suc_Cons drop_Suc_Cons)
qed

lemma PATTERN_TYPES_length: "length PATTERN_TYPES = 11"
  by (simp add: PATTERN_TYPES_def BASIC_PATTERNS_def COMPLEX_PATTERNS_def)

lemma PATTERN_TYPES_distinct: "distinct PATTERN_TYPES"
  by (simp add: PATTERN_TYPES_def BASIC_PATTERNS_def COMPLEX_PATTERNS_def)

lemma m_choice_nonempty:
  "xs \<noteq> [] \<Longrightarrow>
   m_choice xs m = Inr (xs ! (fst (next_draw (rng m)) mod length xs),
                        m\<lparr>rng := snd (next_draw (rng m))\<rparr>)"
  by (simp add: m_choice_def random_choice_def bind_err_def)

lemma m_choice_result:
  assumes "m_choice xs m = Inr (x, m')"
  shows "x \<in> set xs" and "m' = m\<lparr>rng := rng m'\<rparr>"
proof -
  have ne: "xs \<noteq> []"
    using assms by (auto simp: m_choice_def random_choice_def bind_err_def split: if_splits)
  from m_choice_nonempty [OF ne, of m] assms
  have x: "x = xs ! (fst (next_draw (rng m)) mod length xs)"
    and m: "m' = m\<lparr>rng := snd (next_draw (rng m))\<rparr>" by simp_all
  show "x \<in> set xs" unfolding x using ne by simp
  show "m' = m\<lparr>rng := rng m'\<rparr>" by (subst (2) m, subst m) simp
qed

lemma m_randint_result:
  assumes "m_randint a b m = Inr (x, m')"
  shows "m' = m\<lparr>rng := rng m'\<rparr>"
  using assms by (auto simp: m_randint_def random_randint_def bind_err_def split: if_splits)

lemma m_sample_result:
  assumes "m_sample xs k m = Inr (ys, m')"
  shows "m' = m\<lparr>rng := rng m'\<rparr>" and "ys = fst (sample_picks xs (nat k) (rng m))"
    and "0 \<le> k" and "k \<le> int (length xs)"
  using assms by (auto simp: m_sample_def random_sample_def bind_err_def split: if_splits)

lemma m_sample_ok:
  assumes "0 \<le> k" "k \<le> int (length xs)"
  shows "m_sample xs k m = Inr (fst (sample_picks xs (nat k) (rng m)),
                                m\<lparr>rng := snd (sample_picks xs (nat k) (rng m))\<rparr>)"
  using assms by (simp add: m_sample_def random_sample_def bind_err_def)

lemma m_random_result: "snd (m_random m) = m\<lparr>rng := rng (snd (m_random m))\<rparr>"
  by (simp add: m_random_def)

lemma m_uniform_result: "snd (m_uniform a b m) = m\<lparr>rng := rng (snd (m_uniform a b m))\<rparr>"
  by (simp add: m_uniform_def)

lemma other_basic_nonempty: "filter (\<lambda>p. p \<noteq> cur) BASIC_PATTERNS \<noteq> []"
proof (cases "cur = ''line_rain''")
  case True
  then have "''circle_burst'' \<in> set (filter (\<lambda>p. p \<noteq> cur) BASIC_PATTERNS)"
    by (simp add: BASIC_PATTERNS_def)
  then show ?thesis by (metis empty_iff empty_set)
next
  case False
  then have "''line_rain'' \<in> set (filter (\<lambda>p. p \<noteq> cur) BASIC_PATTERNS)"
    by (simp add: BASIC_PATTERNS_def)
  then show ?thesis by (metis empty_iff empty_set)
qed

section \<open>Starting a round\<close>

lemma choose_secondary_total:
  "\<exists>m'. choose_secondary m = Inr m'"
proof (cases "current_pattern m")
  case None
  then show ?thesis by (simp add: choose_secondary_def)
next
  case (Some cur)
  show ?thesis
    using Some m_choice_nonempty [OF other_basic_nonempty, of cur "snd (m_random m)"]
    by (simp add: choose_secondary_def Let_def)
qed

lemma choose_secondary_frame:
  assumes "choose_secondary m = Inr m'"
  shows "m' = m\<lparr>rng := rng m', secondary_pattern := secondary_pattern m'\<rparr>"
proof (cases "current_pattern m")
  case None
  then show ?thesis using assms by (auto simp: choose_secondary_def)
next
  case (Some cur)
  show ?thesis
  proof (cases "cur \<in> set BASIC_PATTERNS \<and> fst (m_random m) < 0.3")
    case False
    then show ?thesis using assms Some
      by (auto simp: choose_secondary_def Let_def m_random_def split: if_splits)
  next
    case True
    then obtain p m2 where
      c: "m_choice (filter (\<lambda>p. p \<noteq> cur) BASIC_PATTERNS) (snd (m_random m)) = Inr (p, m2)"
      and m': "m' = m2\<lparr>secondary_pattern := Some p\<rparr>"
      using assms Some
      by (auto simp: choose_secondary_def Let_def split: if_splits sum.splits)
    from m_choice_result(2) [OF c] have "m2 = (snd (m_random m))\<lparr>rng := rng m2\<rparr>" .
    then have "m2 = m\<lparr>rng := rng m2\<rparr>" by (simp add: m_random_def)
    then show ?thesis unfolding m' by (metis manager.surjective manager.update_convs(11)
          manager.update_convs(25) manager.select_convs(11) manager.select_convs(25))
  qed
qed

lemma choose_secondary_result:
  assumes "choose_secondary m = Inr m'"
  shows "secondary_pattern m' = None \<or>
         (\<exists>cur sec. current_pattern m = Some cur \<and> secondary_pattern m' = Some sec \<and>
            cur \<in> set BASIC_PATTERNS \<and> sec \<in> set BASIC_PATTERNS \<and> sec \<noteq> cur)"
proof (cases "current_pattern m")
  case None
  then show ?thesis using assms by (auto simp: choose_secondary_def)
next
  case (Some cur)
  show ?thesis
  proof (cases "cur \<in> set BASIC_PATTERNS \<and> fst (m_random m) < 0.3")
    case False
    then show ?thesis using assms Some
      by (auto simp: choose_secondary_def Let_def split: if_splits)
  next
    case True
    then obtain p m2 where
      c: "m_choice (filter (\<lambda>p. p \<noteq> cur) BASIC_PATTERNS) (snd (m_random m)) = Inr (p, m2)"
      and m': "m' = m2\<lparr>secondary_pattern := Some p\<rparr>"
      using assms Some
      by (auto simp: choose_secondary_def Let_def split: if_splits sum.splits)
    from m_choice_result(1) [OF c] have "p \<in> set BASIC_PATTERNS" "p \<noteq> cur" by simp_all
    then show ?thesis using True Some m' by simp
  qed
qed

lemma basic_not_complex: "p \<in> set BASIC_PATTERNS \<Longrightarrow> p \<notin> set COMPLEX_PATTERNS"
  by (auto simp: BASIC_PATTERNS_def COMPLEX_PATTERNS_def)

lemma begin_round_total:
  assumes "attack_queue m \<noteq> []"
  shows "\<exists>m'. begin_round m = Inr m'"
proof -
  obtain p ps where q: "attack_queue m = p # ps" using assms by (cases "attack_queue m") auto
  obtain m1 where "choose_secondary (m\<lparr>current_pattern_index := 0, current_pattern := Some p\<rparr>) = Inr m1"
    using choose_secondary_total by blast
  then show ?thesis using q by (simp add: begin_round_def)
qed

lemma begin_round_result:
  assumes "begin_round m = Inr m'"
  shows "attack_queue m' = attack_queue m" and "round_active m'" and "\<not> in_gap m'"
    and "current_pattern_index m' = 0" and "secondary_ok m'"
    and "attack_queue m \<noteq> []" and "current_pattern m' = Some (hd (attack_queue m))"
    and "bullets_group m' = bullets_group m"
proof -
  from assms obtain p ps where q: "attack_queue m = p # ps"
    by (cases "attack_queue m") (auto simp: begin_round_def)
  let ?m0 = "m\<lparr>current_pattern_index := 0, current_pattern := Some p\<rparr>"
  from assms q obtain m1 where c: "choose_secondary ?m0 = Inr m1"
    and m': "m' = reset_round_fields m1"
    by (auto simp: begin_round_def split: sum.splits)
  note f = choose_secondary_frame [OF c]
  have a: "attack_queue m1 = attack_queue m" "current_pattern m1 = Some p"
    "current_pattern_index m1 = 0" "bullets_group m1 = bullets_group m"
    by (subst f, simp)+
  show "attack_queue m' = attack_queue m" using m' a by (simp add: reset_round_fields_def)
  show "round_active m'" using m' by (simp add: reset_round_fields_def)
  show "\<not> in_gap m'" using m' by (simp add: reset_round_fields_def)
  show "current_pattern_index m' = 0" using m' a by (simp add: reset_round_fields_def)
  show "attack_queue m \<noteq> []" using q by simp
  show "current_pattern m' = Some (hd (attack_queue m))"
    using m' a q by (simp add: reset_round_fields_def)
  show "bullets_group m' = bullets_group m" using m' a by (simp add: reset_round_fields_def)
  have "secondary_ok m1"
    using choose_secondary_result [OF c] a(2) basic_not_complex
    by (auto simp: secondary_ok_def split: option.splits)
  then show "secondary_ok m'" using m'
    by (simp add: reset_round_fields_def secondary_ok_def split: option.splits)
qed

text \<open>
  \<open>start_round_with_pattern_count\<close> never raises: the count it uses is the request
  clamped to \<open>1 .. 11\<close>, the queue is a sample without replacement of that size, and the
  round starts at index 0 outside the gap.
\<close>

lemma start_round_count_general:
  "\<exists>m'. start_round_with_pattern_count n m = Inr m' \<and>
        length (attack_queue m') = nat (max 1 (min n 11)) \<and>
        set (attack_queue m') \<subseteq> set PATTERN_TYPES \<and>
        distinct (attack_queue m') \<and>
        round_active m' \<and> \<not> in_gap m' \<and> current_pattern_index m' = 0 \<and>
        secondary_ok m' \<and> bullets_group m' = bullets_group m"
proof -
  let ?k = "max 1 (min n (int (length PATTERN_TYPES)))"
  have k: "0 \<le> ?k" "?k \<le> int (length PATTERN_TYPES)" "?k = max 1 (min n 11)"
    by (simp_all add: PATTERN_TYPES_length)
  let ?q = "fst (sample_picks PATTERN_TYPES (nat ?k) (rng m))"
  let ?m1 = "m\<lparr>rng := snd (sample_picks PATTERN_TYPES (nat ?k) (rng m))\<rparr>"
  have s: "m_sample PATTERN_TYPES ?k m = Inr (?q, ?m1)"
    by (rule m_sample_ok [OF k(1) k(2)])
  have lq: "length ?q = nat ?k"
    using k(2) by (simp add: sample_picks_length del: sample_picks.simps)
  then have f: "fill_queue (nat (?k - int (length ?q))) (?m1\<lparr>attack_queue := ?q\<rparr>)
      = Inr (?m1\<lparr>attack_queue := ?q\<rparr>)"
    using k(1) by simp
  have e: "start_round_with_pattern_count n m = begin_round (?m1\<lparr>attack_queue := ?q\<rparr>)"
    using s f by (simp add: start_round_with_pattern_count_def Let_def)
  have ne: "attack_queue (?m1\<lparr>attack_queue := ?q\<rparr>) \<noteq> []"
  proof -
    have "0 < nat ?k" by simp
    then have "?q \<noteq> []" using lq by (metis length_greater_0_conv)
    then show ?thesis by simp
  qed
  from begin_round_total [OF ne] obtain m' where b: "begin_round (?m1\<lparr>attack_queue := ?q\<rparr>) = Inr m'"
    by blast
  note r = begin_round_result [OF b]
  have aq: "attack_queue m' = ?q" using r(1) by simp
  have "length (attack_queue m') = nat (max 1 (min n 11))" using aq lq k(3) by simp
  moreover have "set (attack_queue m') \<subseteq> set PATTERN_TYPES"
    unfolding aq by (rule sample_picks_subset)
  moreover have "distinct (attack_queue m')"
    unfolding aq by (rule sample_picks_distinct [OF PATTERN_TYPES_distinct])
  moreover have "bullets_group m' = bullets_group m" using r(8) by simp
  ultimately show ?thesis using e b r(2,3,4,5) by auto
qed

text \<open>
  A request of 15 patterns yields a queue of eleven: the loop that would fill the queue
  up to the request compares against the clamped count and never runs.
\<close>

lemma start_round_fifteen_gives_eleven:
  "map_sum id (\<lambda>m'. length (attack_queue m')) (start_round_with_pattern_count 15 m) = Inr 11"
proof -
  from start_round_count_general [of 15 m] obtain m' where
    "start_round_with_pattern_count 15 m = Inr m'"
    "length (attack_queue m') = nat (max 1 (min 15 11))"
    by blast
  then show ?thesis by simp
qed

text \<open>
  Claim C2, amended. For every requested count of at most 11,
  \<open>start_round_with_pattern_count\<close> returns normally with an attack queue of length
  \<open>max 1 count\<close> (a request below 1 is raised to 1) whose entries are all valid pattern
  identifiers and pairwise distinct.
\<close>

theorem start_round_with_pattern_count_queue:
  "n \<le> 11 \<Longrightarrow>
   \<exists>m'. start_round_with_pattern_count n m = Inr m' \<and>
        length (attack_queue m') = nat (max 1 n) \<and>
        set (attack_queue m') \<subseteq> set PATTERN_TYPES \<and>
        distinct (attack_queue m')"
proof -
  assume "n \<le> 11"
  then have "max 1 (min n 11) = max 1 n" by simp
  then show ?thesis using start_round_count_general [of n m] by auto
qed

lemma sample_first_pick: "sample_picks (p # ps) (Suc 0) [] = ([p], [])"
  by (simp add: next_draw_def Let_def)

lemma m_sample_first:
  "m_sample PATTERN_TYPES 1 (blank_manager b [] [] [])
     = Inr ([''line_rain''], blank_manager b [] [] [])"
proof -
  have p: "PATTERN_TYPES = ''line_rain'' # tl PATTERN_TYPES"
    by (simp add: PATTERN_TYPES_def BASIC_PATTERNS_def)
  have "sample_picks PATTERN_TYPES (Suc 0) [] = ([''line_rain''], [])"
    by (subst p) (rule sample_first_pick)
  then show ?thesis
    by (simp add: m_sample_def random_sample_def bind_err_def PATTERN_TYPES_length
        blank_manager_def)
qed

lemma choose_secondary_first:
  assumes "current_pattern m = Some ''line_rain''" "rng m = []"
  shows "choose_secondary m = Inr (m\<lparr>secondary_pattern := Some ''circle_burst''\<rparr>)"
proof -
  have r: "m_random m = (0, m)"
    using assms(2) by (simp add: m_random_def random_random_def next_draw_def)
  have o: "filter (\<lambda>p. p \<noteq> ''line_rain'') BASIC_PATTERNS
      = [''circle_burst'', ''targeting'', ''bouncing_walls'', ''spiral'', ''laser_warning'']"
    by (simp add: BASIC_PATTERNS_def)
  have c: "m_choice [''circle_burst'', ''targeting'', ''bouncing_walls'', ''spiral'',
      ''laser_warning''] m = Inr (''circle_burst'', m)"
    using assms(2) by (simp add: m_choice_def random_choice_def bind_err_def next_draw_def)
  have b: "''line_rain'' \<in> set BASIC_PATTERNS" by (simp add: BASIC_PATTERNS_def)
  show ?thesis
    unfolding choose_secondary_def assms(1) Let_def r
    using b c by (simp add: o)
qed

text \<open>
  Claim C2 as stated fails for a requested count of 0: the queue then has one entry, not
  none.
\<close>

theorem start_round_zero_counterexample:
  "map_sum id attack_queue
     (start_round_with_pattern_count 0 (blank_manager (Rect 0 0 300 200) [] [] []))
     = Inr [''line_rain''] \<and>
   length [''line_rain''] \<noteq> nat 0"
proof -
  let ?m = "blank_manager (Rect 0 0 300 200) [] [] []"
  have k: "max 1 (min 0 (int (length PATTERN_TYPES))) = 1"
    by (simp add: PATTERN_TYPES_length)
  have c: "choose_secondary (?m\<lparr>attack_queue := [''line_rain''], current_pattern_index := 0,
               current_pattern := Some ''line_rain''\<rparr>)
      = Inr (?m\<lparr>attack_queue := [''line_rain''], current_pattern_index := 0,
               current_pattern := Some ''line_rain'',
               secondary_pattern := Some ''circle_burst''\<rparr>)"
    by (rule choose_secondary_first) (simp_all add: blank_manager_def)
  have b: "begin_round (?m\<lparr>attack_queue := [''line_rain'']\<rparr>)
      = Inr (reset_round_fields (?m\<lparr>attack_queue := [''line_rain''], current_pattern_index := 0,
               current_pattern := Some ''line_rain'',
               secondary_pattern := Some ''circle_burst''\<rparr>))"
    unfolding begin_round_def using c by simp
  have "start_round_with_pattern_count 0 ?m
      = Inr (reset_round_fields (?m\<lparr>attack_queue := [''line_rain''], current_pattern_index := 0,
               current_pattern := Some ''line_rain'',
               secondary_pattern := Some ''circle_burst''\<rparr>))"
    unfolding start_round_with_pattern_count_def Let_def k m_sample_first
    using b by simp
  then show ?thesis by (simp add: reset_round_fields_def)
qed

text \<open>
  The theorem of C2 at a requested count of 3.
\<close>

theorem start_round_with_pattern_count_queue_witness:
  "(3::int) \<le> 11 \<and>
   (\<exists>m'. start_round_with_pattern_count 3 (blank_manager sample_box [] [] []) = Inr m' \<and>
      length (attack_queue m') = 3 \<and>
      set (attack_queue m') \<subseteq> set PATTERN_TYPES \<and>
      distinct (attack_queue m'))"
  using start_round_with_pattern_count_queue [of 3 "blank_manager sample_box [] [] []"]
  by simp

section \<open>Pattern functions leave the scheduler fields alone\<close>

lemma sched_upd [simp]:
  "sched (m\<lparr>heap := h\<rparr>) = sched m"
  "sched (m\<lparr>bullets_group := g\<rparr>) = sched m"
  "sched (m\<lparr>rng := r\<rparr>) = sched m"
  "sched (m\<lparr>pattern_internal_timer := t\<rparr>) = sched m"
  "sched (m\<lparr>pattern_internal_timer_2 := t\<rparr>) = sched m"
  "sched (m\<lparr>lasers := ls\<rparr>) = sched m"
  "sched (m\<lparr>laser_spawn_timer := t\<rparr>) = sched m"
  "sched (m\<lparr>gravity_mode := gm\<rparr>) = sched m"
  "sched (m\<lparr>gravity_wells := ws\<rparr>) = sched m"
  "sched (m\<lparr>cross_bullets := cb\<rparr>) = sched m"
  "sched (m\<lparr>cross_angle := ca\<rparr>) = sched m"
  "sched (m\<lparr>cross_center := cc\<rparr>) = sched m"
  "sched (m\<lparr>ring_timer := t\<rparr>) = sched m"
  "sched (m\<lparr>homing_blades := hb\<rparr>) = sched m"
  "sched (m\<lparr>difficulty := d\<rparr>) = sched m"
  "sched (m\<lparr>patterns_per_round_attr := pa\<rparr>) = sched m"
  by (simp_all add: sched_def)

lemma sched_prims [simp]:
  "sched (new_sprite sp m) = sched m"
  "sched (group_add i m) = sched m"
  "sched (spawn sp m) = sched m"
  "sched (kill i m) = sched m"
  "sched (group_empty m) = sched m"
  "sched (tick_timer s m) = sched m"
  "sched (write_timer s t m) = sched m"
  "sched (snd (m_random m)) = sched m"
  "sched (snd (m_uniform a b m)) = sched m"
  by (simp_all add: new_sprite_def group_add_def spawn_def kill_def group_empty_def
      tick_timer_def write_timer_def m_random_def m_uniform_def)

lemma sched_m_randint [simp]: "m_randint a b m = Inr (x, m') \<Longrightarrow> sched m' = sched m"
  using m_randint_result [of a b m x m'] by (metis sched_upd(3))

lemma sched_m_choice [simp]: "m_choice xs m = Inr (x, m') \<Longrightarrow> sched m' = sched m"
  using m_choice_result(2) [of xs m x m'] by (metis sched_upd(3))

lemma sched_m_sample [simp]: "m_sample xs k m = Inr (ys, m') \<Longrightarrow> sched m' = sched m"
  using m_sample_result(1) [of xs k m ys m'] by (metis sched_upd(3))

lemma sched_fold:
  assumes "\<And>x m. sched (f x m) = sched m"
  shows "sched (fold f xs m) = sched m"
  using assms by (induction xs arbitrary: m) simp_all

lemma sched_line_rain_spawn:
  "line_rain_spawn S n m = Inr m' \<Longrightarrow> sched m' = sched m"
proof (induction n arbitrary: m)
  case 0
  then show ?case by simp
next
  case (Suc n)
  then show ?case by (auto split: sum.splits prod.splits)
qed

lemma sched_pattern_line_rain:
  "pattern_line_rain S sec m = Inr m' \<Longrightarrow> sched m' = sched m"
  by (auto simp: pattern_line_rain_def Let_def dest: sched_line_rain_spawn
      split: if_splits sum.splits)

lemma sched_pattern_circle_burst:
  "pattern_circle_burst S sec m = Inr m' \<Longrightarrow> sched m' = sched m"
  by (auto simp: pattern_circle_burst_def Let_def circle_burst_bullet_def sched_fold
      split: if_splits)

lemma sched_pattern_targeting:
  "pattern_targeting S px py sec m = Inr m' \<Longrightarrow> sched m' = sched m"
  by (auto simp: pattern_targeting_def Let_def targeting_bullet_def sched_fold
      split: if_splits sum.splits prod.splits)

lemma sched_bouncing_start:
  "bouncing_start m = Inr (v, m') \<Longrightarrow> sched m' = sched m"
  by (auto simp: bouncing_start_def split: if_splits sum.splits prod.splits)

lemma sched_pattern_bouncing_walls:
  "pattern_bouncing_walls sec m = Inr m' \<Longrightarrow> sched m' = sched m"
  by (auto simp: pattern_bouncing_walls_def Let_def dest!: sched_bouncing_start
      split: if_splits sum.splits prod.splits)

lemma sched_pattern_spiral:
  "pattern_spiral S m = Inr m' \<Longrightarrow> sched m' = sched m"
  by (auto simp: pattern_spiral_def Let_def spiral_bullet_def sched_fold split: if_splits)

lemma sched_new_laser:
  "new_laser m = Inr (l, m') \<Longrightarrow> sched m' = sched m"
  by (auto simp: new_laser_def split: if_splits sum.splits prod.splits)

lemma sched_pattern_laser_warning:
  "pattern_laser_warning m = Inr m' \<Longrightarrow> sched m' = sched m"
  by (auto simp: pattern_laser_warning_def Let_def dest!: sched_new_laser
      split: if_splits sum.splits prod.splits)

lemma sched_pattern_snake_wave:
  "pattern_snake_wave m = Inr m' \<Longrightarrow> sched m' = sched m"
  by (auto simp: pattern_snake_wave_def Let_def wave_bullet_at_def sched_fold split: if_splits)

lemma sched_blade_step [simp]: "sched (blade_step px py i m) = sched m"
  by (simp add: blade_step_def Let_def split: sprite.splits)

lemma sched_blade_position:
  "blade_position e m = Inr (v, m') \<Longrightarrow> sched m' = sched m"
  by (auto simp: blade_position_def split: if_splits sum.splits prod.splits)

lemma sched_spawn_blades:
  "spawn_blades px py es m = Inr m' \<Longrightarrow> sched m' = sched m"
proof (induction es arbitrary: m)
  case Nil
  then show ?case by simp
next
  case (Cons e es)
  then show ?case
    by (auto simp: Let_def dest!: sched_blade_position split: sum.splits prod.splits)
qed

lemma sched_pattern_homing_blades:
  "pattern_homing_blades px py m = Inr m' \<Longrightarrow> sched m' = sched m"
  by (auto simp: pattern_homing_blades_def Let_def sched_fold dest!: sched_spawn_blades
      split: if_splits sum.splits prod.splits)

lemma sched_ring_bullet [simp]: "sched (ring_bullet S cx cy gaps i m) = sched m"
  by (simp add: ring_bullet_def)

lemma sched_ring_step [simp]: "sched (ring_step i m) = sched m"
  by (simp add: ring_step_def Let_def split: sprite.splits)

lemma sched_pattern_expanding_ring:
  "pattern_expanding_ring S m = Inr m' \<Longrightarrow> sched m' = sched m"
  by (auto simp: pattern_expanding_ring_def Let_def sched_fold
      split: if_splits sum.splits prod.splits)

lemma sched_pattern_gravity_wells:
  "pattern_gravity_wells S px py m = Inr m' \<Longrightarrow> sched m' = sched m"
  by (auto simp: pattern_gravity_wells_def Let_def
      split: if_splits sum.splits prod.splits)

lemma sched_cross_bullet [simp]: "sched (cross_bullet S ij m) = sched m"
  by (simp add: cross_bullet_def Let_def)

lemma sched_cross_step [simp]: "sched (cross_step i m) = sched m"
  by (simp add: cross_step_def Let_def split: sprite.splits)

lemma sched_cross_rain:
  "cross_rain S n m = Inr m' \<Longrightarrow> sched m' = sched m"
proof (induction n arbitrary: m)
  case 0
  then show ?case by simp
next
  case (Suc n)
  then show ?case by (auto split: sum.splits prod.splits)
qed

lemma sched_pattern_rotating_cross:
  "pattern_rotating_cross S px py m = Inr m' \<Longrightarrow> sched m' = sched m"
  by (auto simp: pattern_rotating_cross_def Let_def sched_fold dest!: sched_cross_rain
      split: if_splits)

lemma sched_execute_current_pattern:
  "execute_current_pattern S px py m = Inr m' \<Longrightarrow> sched m' = sched m"
  unfolding execute_current_pattern_def Let_def
  by (auto split: if_splits
      dest: sched_pattern_line_rain sched_pattern_circle_burst sched_pattern_targeting
        sched_pattern_bouncing_walls sched_pattern_spiral sched_pattern_laser_warning
        sched_pattern_snake_wave sched_pattern_homing_blades sched_pattern_expanding_ring
        sched_pattern_gravity_wells sched_pattern_rotating_cross)

lemma sched_execute_secondary_pattern:
  "execute_secondary_pattern S px py m = Inr m' \<Longrightarrow> sched m' = sched m"
  unfolding execute_secondary_pattern_def Let_def
  by (auto split: if_splits
      dest: sched_pattern_line_rain sched_pattern_circle_burst sched_pattern_targeting
        sched_pattern_bouncing_walls)

section \<open>One tick of the scheduler\<close>

lemma next_pattern_exhausted:
  assumes "length (attack_queue m) \<le> current_pattern_index m + 1"
  shows "next_pattern m = Inr (m\<lparr>current_pattern_index := current_pattern_index m + 1,
                                  round_active := False, current_pattern := None\<rparr>)"
  using assms by (simp add: next_pattern_def Let_def)

lemma next_pattern_advance:
  assumes "current_pattern_index m + 1 < length (attack_queue m)"
  shows "\<exists>m'. next_pattern m = Inr m' \<and>
           m' = m\<lparr>current_pattern_index := current_pattern_index m + 1,
                   current_pattern := Some (attack_queue m ! (current_pattern_index m + 1)),
                   pattern_timer := 0, pattern_internal_timer := 0,
                   pattern_internal_timer_2 := 0, laser_spawn_timer := 0,
                   rng := rng m', secondary_pattern := secondary_pattern m'\<rparr> \<and>
           secondary_ok m'"
proof -
  let ?m1 = "m\<lparr>current_pattern_index := current_pattern_index m + 1,
                 current_pattern := Some (attack_queue m ! (current_pattern_index m + 1)),
                 pattern_timer := 0, pattern_internal_timer := 0,
                 pattern_internal_timer_2 := 0, laser_spawn_timer := 0\<rparr>"
  have e: "next_pattern m = choose_secondary ?m1"
    using assms by (simp add: next_pattern_def Let_def)
  obtain m' where c: "choose_secondary ?m1 = Inr m'" using choose_secondary_total by blast
  note f = choose_secondary_frame [OF c]
  have cur: "current_pattern m' = Some (attack_queue m ! (current_pattern_index m + 1))"
    by (subst f) simp
  have "secondary_ok m'"
    using choose_secondary_result [OF c] cur basic_not_complex
    by (auto simp: secondary_ok_def split: option.splits)
  then show ?thesis using e c f by simp
qed

lemma update_inactive:
  "\<not> round_active m \<Longrightarrow> AttackManager_update S px py m = Inr (False, m)"
  by (simp add: AttackManager_update_def)

lemma update_gap_wait:
  assumes "round_active m" "in_gap m" "gap_timer m + 1 < GAP_BETWEEN_ATTACKS S"
  shows "AttackManager_update S px py m = Inr (True, m\<lparr>gap_timer := gap_timer m + 1\<rparr>)"
  using assms by (simp add: AttackManager_update_def Let_def)

lemma update_gap_end:
  assumes "round_active m" "in_gap m" "GAP_BETWEEN_ATTACKS S \<le> gap_timer m + 1"
  shows "AttackManager_update S px py m =
           (case next_pattern (m\<lparr>in_gap := False, gap_timer := 0\<rparr>) of
              Inl e \<Rightarrow> Inl e | Inr m2 \<Rightarrow> Inr (True, m2))"
  using assms by (simp add: AttackManager_update_def Let_def)

lemma update_pattern_end:
  assumes "round_active m" "\<not> in_gap m" "ATTACK_DURATION S \<le> pattern_timer m + 1"
  shows "AttackManager_update S px py m =
           Inr (True, end_current_pattern (m\<lparr>pattern_timer := pattern_timer m + 1\<rparr>))"
  using assms by (simp add: AttackManager_update_def Let_def)

lemma update_running:
  assumes "round_active m" "\<not> in_gap m" "pattern_timer m + 1 < ATTACK_DURATION S"
  shows "AttackManager_update S px py m =
           (case execute_current_pattern S px py (m\<lparr>pattern_timer := pattern_timer m + 1\<rparr>) of
              Inl e \<Rightarrow> Inl e
            | Inr m2 \<Rightarrow>
                (if truthy (secondary_pattern m)
                 then (case execute_secondary_pattern S px py m2 of
                         Inl e \<Rightarrow> Inl e | Inr m3 \<Rightarrow> Inr (True, m3))
                 else Inr (True, m2)))"
proof (cases "execute_current_pattern S px py (m\<lparr>pattern_timer := pattern_timer m + 1\<rparr>)")
  case (Inl e)
  then show ?thesis using assms by (simp add: AttackManager_update_def Let_def)
next
  case (Inr m2)
  from sched_execute_current_pattern [OF Inr]
  have "secondary_pattern m2 = secondary_pattern m" by (simp add: sched_def)
  then show ?thesis using assms Inr by (simp add: AttackManager_update_def Let_def)
qed

text \<open>
  Claim C1. On a tick of \<open>AttackManager.update\<close> in an active round: when the manager
  is not in the gap and the incremented pattern counter reaches \<open>ATTACK_DURATION\<close>, the
  tick returns true with the sprite group, the lasers, the gravity wells, the cross
  bullets and the homing blades all empty, gravity mode off, the gap entered with a gap
  counter of zero, and the queue index where it was. A tick in the gap returns true and
  leaves the sprite group, every sprite, the lasers and the wells as they were: nothing
  is spawned. While the incremented gap counter is below \<open>GAP_BETWEEN_ATTACKS\<close> the tick
  only increments it. Once it reaches \<open>GAP_BETWEEN_ATTACKS\<close> the tick leaves the gap,
  resets the gap counter and advances the queue index by exactly one; the round stays
  active exactly when the new index is inside the queue, and the current pattern is then
  the queue entry at the new index (none when the queue is exhausted).
\<close>

theorem update_pattern_end_gap_advance:
  assumes "round_active m"
  shows
  "(\<not> in_gap m \<and> ATTACK_DURATION S \<le> pattern_timer m + 1 \<longrightarrow>
      (\<exists>m'. AttackManager_update S px py m = Inr (True, m') \<and>
         bullets_group m' = [] \<and> lasers m' = [] \<and> gravity_wells m' = [] \<and>
         cross_bullets m' = [] \<and> homing_blades m' = [] \<and> \<not> gravity_mode m' \<and>
         in_gap m' \<and> gap_timer m' = 0 \<and> round_active m' \<and>
         current_pattern_index m' = current_pattern_index m)) \<and>
   (in_gap m \<longrightarrow>
      (\<exists>m'. AttackManager_update S px py m = Inr (True, m') \<and>
         bullets_group m' = bullets_group m \<and> heap m' = heap m \<and>
         lasers m' = lasers m \<and> gravity_wells m' = gravity_wells m \<and>
         cross_bullets m' = cross_bullets m \<and> homing_blades m' = homing_blades m)) \<and>
   (in_gap m \<and> gap_timer m + 1 < GAP_BETWEEN_ATTACKS S \<longrightarrow>
      AttackManager_update S px py m = Inr (True, m\<lparr>gap_timer := gap_timer m + 1\<rparr>)) \<and>
   (in_gap m \<and> GAP_BETWEEN_ATTACKS S \<le> gap_timer m + 1 \<longrightarrow>
      (\<exists>m'. AttackManager_update S px py m = Inr (True, m') \<and>
         current_pattern_index m' = current_pattern_index m + 1 \<and>
         \<not> in_gap m' \<and> gap_timer m' = 0 \<and>
         round_active m' = (current_pattern_index m + 1 < length (attack_queue m)) \<and>
         current_pattern m' =
           (if current_pattern_index m + 1 < length (attack_queue m)
            then Some (attack_queue m ! (current_pattern_index m + 1)) else None)))"
proof -
  have gap_end: "\<exists>m'. AttackManager_update S px py m = Inr (True, m') \<and>
         current_pattern_index m' = current_pattern_index m + 1 \<and>
         \<not> in_gap m' \<and> gap_timer m' = 0 \<and>
         round_active m' = (current_pattern_index m + 1 < length (attack_queue m)) \<and>
         current_pattern m' =
           (if current_pattern_index m + 1 < length (attack_queue m)
            then Some (attack_queue m ! (current_pattern_index m + 1)) else None) \<and>
         bullets_group m' = bullets_group m \<and> heap m' = heap m \<and>
         lasers m' = lasers m \<and> gravity_wells m' = gravity_wells m \<and>
         cross_bullets m' = cross_bullets m \<and> homing_blades m' = homing_blades m"
    if g: "in_gap m" "GAP_BETWEEN_ATTACKS S \<le> gap_timer m + 1"
  proof -
    let ?m0 = "m\<lparr>in_gap := False, gap_timer := 0\<rparr>"
    note u = update_gap_end [OF assms g, of px py]
    show ?thesis
    proof (cases "current_pattern_index m + 1 < length (attack_queue m)")
      case True
      then have "current_pattern_index ?m0 + 1 < length (attack_queue ?m0)" by simp
      from next_pattern_advance [OF this] obtain m' where
        n: "next_pattern ?m0 = Inr m'"
        and f: "m' = ?m0\<lparr>current_pattern_index := current_pattern_index ?m0 + 1,
                   current_pattern := Some (attack_queue ?m0 ! (current_pattern_index ?m0 + 1)),
                   pattern_timer := 0, pattern_internal_timer := 0,
                   pattern_internal_timer_2 := 0, laser_spawn_timer := 0,
                   rng := rng m', secondary_pattern := secondary_pattern m'\<rparr>"
        by blast
      have "AttackManager_update S px py m = Inr (True, m')" using u n by simp
      moreover have "current_pattern_index m' = current_pattern_index m + 1"
        "\<not> in_gap m'" "gap_timer m' = 0" "round_active m'"
        "current_pattern m' = Some (attack_queue m ! (current_pattern_index m + 1))"
        "bullets_group m' = bullets_group m" "heap m' = heap m"
        "lasers m' = lasers m" "gravity_wells m' = gravity_wells m"
        "cross_bullets m' = cross_bullets m" "homing_blades m' = homing_blades m"
        using assms by (subst f, simp)+
      ultimately show ?thesis using True by simp
    next
      case False
      then have "length (attack_queue ?m0) \<le> current_pattern_index ?m0 + 1" by simp
      from next_pattern_exhausted [OF this] u False show ?thesis by simp
    qed
  qed
  show ?thesis
  proof (intro conjI impI)
    assume "\<not> in_gap m \<and> ATTACK_DURATION S \<le> pattern_timer m + 1"
    then show "\<exists>m'. AttackManager_update S px py m = Inr (True, m') \<and>
         bullets_group m' = [] \<and> lasers m' = [] \<and> gravity_wells m' = [] \<and>
         cross_bullets m' = [] \<and> homing_blades m' = [] \<and> \<not> gravity_mode m' \<and>
         in_gap m' \<and> gap_timer m' = 0 \<and> round_active m' \<and>
         current_pattern_index m' = current_pattern_index m"
      using update_pattern_end [OF assms, of S px py] assms
      by (simp add: end_current_pattern_def group_empty_def)
  next
    assume g: "in_gap m"
    show "\<exists>m'. AttackManager_update S px py m = Inr (True, m') \<and>
         bullets_group m' = bullets_group m \<and> heap m' = heap m \<and>
         lasers m' = lasers m \<and> gravity_wells m' = gravity_wells m \<and>
         cross_bullets m' = cross_bullets m \<and> homing_blades m' = homing_blades m"
    proof (cases "gap_timer m + 1 < GAP_BETWEEN_ATTACKS S")
      case True
      then show ?thesis using update_gap_wait [OF assms g, of S px py] by simp
    next
      case False
      then have "GAP_BETWEEN_ATTACKS S \<le> gap_timer m + 1" by simp
      from gap_end [OF g this] show ?thesis by blast
    qed
  next
    assume "in_gap m \<and> gap_timer m + 1 < GAP_BETWEEN_ATTACKS S"
    then show "AttackManager_update S px py m = Inr (True, m\<lparr>gap_timer := gap_timer m + 1\<rparr>)"
      using update_gap_wait [OF assms] by blast
  next
    assume "in_gap m \<and> GAP_BETWEEN_ATTACKS S \<le> gap_timer m + 1"
    then have "in_gap m" "GAP_BETWEEN_ATTACKS S \<le> gap_timer m + 1" by simp_all
    from gap_end [OF this]
    show "\<exists>m'. AttackManager_update S px py m = Inr (True, m') \<and>
         current_pattern_index m' = current_pattern_index m + 1 \<and>
         \<not> in_gap m' \<and> gap_timer m' = 0 \<and>
         round_active m' = (current_pattern_index m + 1 < length (attack_queue m)) \<and>
         current_pattern m' =
           (if current_pattern_index m + 1 < length (attack_queue m)
            then Some (attack_queue m ! (current_pattern_index m + 1)) else None)"
      by blast
  qed
qed

text \<open>
  The theorem of C1 at a round of one pattern: on tick 300 of the pattern a group holding
  one sprite is emptied and the gap begins; on tick 60 of the gap the index moves to 1 and
  the round ends with the group still empty.
\<close>

theorem update_pattern_end_gap_advance_witness:
  "round_active ((sample_round ''line_rain'' None)\<lparr>pattern_timer := 299, bullets_group := [0]\<rparr>) \<and>
   \<not> in_gap ((sample_round ''line_rain'' None)\<lparr>pattern_timer := 299, bullets_group := [0]\<rparr>) \<and>
   ATTACK_DURATION sample_settings
     \<le> pattern_timer ((sample_round ''line_rain'' None)\<lparr>pattern_timer := 299, bullets_group := [0]\<rparr>) + 1 \<and>
   (\<exists>m'. AttackManager_update sample_settings 0 0
            ((sample_round ''line_rain'' None)\<lparr>pattern_timer := 299, bullets_group := [0]\<rparr>)
          = Inr (True, m') \<and> bullets_group m' = [] \<and> in_gap m' \<and> gap_timer m' = 0) \<and>
   round_active ((sample_round ''line_rain'' None)\<lparr>in_gap := True, gap_timer := 59\<rparr>) \<and>
   in_gap ((sample_round ''line_rain'' None)\<lparr>in_gap := True, gap_timer := 59\<rparr>) \<and>
   GAP_BETWEEN_ATTACKS sample_settings
     \<le> gap_timer ((sample_round ''line_rain'' None)\<lparr>in_gap := True, gap_timer := 59\<rparr>) + 1 \<and>
   (\<exists>m'. AttackManager_update sample_settings 0 0
            ((sample_round ''line_rain'' None)\<lparr>in_gap := True, gap_timer := 59\<rparr>)
          = Inr (True, m') \<and> current_pattern_index m' = 1 \<and> \<not> round_active m' \<and>
        bullets_group m' = [])"
proof -
  let ?r = "(sample_round ''line_rain'' None)\<lparr>pattern_timer := 299, bullets_group := [0]\<rparr>"
  let ?g = "(sample_round ''line_rain'' None)\<lparr>in_gap := True, gap_timer := 59\<rparr>"
  have r: "round_active ?r" "\<not> in_gap ?r"
    "ATTACK_DURATION sample_settings \<le> pattern_timer ?r + 1"
    by (simp_all add: sample_round_def blank_manager_def sample_settings_def)
  have g: "round_active ?g" "in_gap ?g"
    "GAP_BETWEEN_ATTACKS sample_settings \<le> gap_timer ?g + 1"
    by (simp_all add: sample_round_def blank_manager_def sample_settings_def)
  have gq: "current_pattern_index ?g = 0" "length (attack_queue ?g) = 1" "bullets_group ?g = []"
    by (simp_all add: sample_round_def blank_manager_def)
  from update_pattern_end_gap_advance [OF r(1), of sample_settings 0 0] r(2,3)
  have a: "\<exists>m'. AttackManager_update sample_settings 0 0 ?r = Inr (True, m') \<and>
        bullets_group m' = [] \<and> in_gap m' \<and> gap_timer m' = 0"
    by blast
  from update_pattern_end_gap_advance [OF g(1), of sample_settings 0 0] g(2,3)
  obtain m' where u: "AttackManager_update sample_settings 0 0 ?g = Inr (True, m')"
    and i: "current_pattern_index m' = current_pattern_index ?g + 1"
    and ra: "round_active m' = (current_pattern_index ?g + 1 < length (attack_queue ?g))"
    by blast
  from update_pattern_end_gap_advance [OF g(1), of sample_settings 0 0] g(2)
  obtain m'' where u': "AttackManager_update sample_settings 0 0 ?g = Inr (True, m'')"
    and bg: "bullets_group m'' = bullets_group ?g"
    by blast
  from u u' have "m'' = m'" by simp
  then have b: "\<exists>m'. AttackManager_update sample_settings 0 0 ?g = Inr (True, m') \<and>
        current_pattern_index m' = 1 \<and> \<not> round_active m' \<and> bullets_group m' = []"
    using u i ra bg gq by auto
  show ?thesis using r g a b by blast
qed

section \<open>The secondary pattern in reachable states\<close>

lemma secondary_ok_cong:
  assumes "current_pattern m' = current_pattern m" "secondary_pattern m' = secondary_pattern m"
  shows "secondary_ok m' = secondary_ok m"
  using assms by (simp add: secondary_ok_def cong: option.case_cong)

lemma secondary_ok_upd [simp]:
  "secondary_ok (m\<lparr>heap := h\<rparr>) = secondary_ok m"
  "secondary_ok (m\<lparr>bullets_group := g\<rparr>) = secondary_ok m"
  "secondary_ok (m\<lparr>gap_timer := t\<rparr>) = secondary_ok m"
  "secondary_ok (m\<lparr>pattern_timer := t\<rparr>) = secondary_ok m"
  "secondary_ok (m\<lparr>in_gap := b\<rparr>) = secondary_ok m"
  "secondary_ok (m\<lparr>difficulty := d\<rparr>) = secondary_ok m"
  "secondary_ok (m\<lparr>lasers := ls\<rparr>) = secondary_ok m"
  "secondary_ok (m\<lparr>gravity_mode := gm\<rparr>) = secondary_ok m"
  "secondary_ok (m\<lparr>gravity_wells := ws\<rparr>) = secondary_ok m"
  "secondary_ok (m\<lparr>cross_bullets := cb\<rparr>) = secondary_ok m"
  "secondary_ok (m\<lparr>homing_blades := hb\<rparr>) = secondary_ok m"
  "secondary_ok (m\<lparr>patterns_per_round_attr := pa\<rparr>) = secondary_ok m"
  by (rule secondary_ok_cong; simp)+

lemma secondary_ok_sched:
  assumes "sched m' = sched m"
  shows "secondary_ok m' = secondary_ok m" and "round_active m' = round_active m"
proof -
  show "secondary_ok m' = secondary_ok m"
    by (rule secondary_ok_cong) (use assms in \<open>simp_all add: sched_def\<close>)
  show "round_active m' = round_active m" using assms by (simp add: sched_def)
qed

lemma update_invariant:
  assumes u: "AttackManager_update S px py m = Inr (b, m')"
    and inv: "round_active m \<longrightarrow> secondary_ok m"
  shows "round_active m' \<longrightarrow> secondary_ok m'"
proof (cases "round_active m")
  case False
  then show ?thesis using u inv by (simp add: update_inactive)
next
  case ra: True
  then have ok: "secondary_ok m" using inv by simp
  show ?thesis
  proof (cases "in_gap m")
    case g: True
    show ?thesis
    proof (cases "gap_timer m + 1 < GAP_BETWEEN_ATTACKS S")
      case True
      from update_gap_wait [OF ra g True, of px py] u
      have "m' = m\<lparr>gap_timer := gap_timer m + 1\<rparr>" by simp
      then show ?thesis using ok by simp
    next
      case False
      then have ge: "GAP_BETWEEN_ATTACKS S \<le> gap_timer m + 1" by simp
      let ?m0 = "m\<lparr>in_gap := False, gap_timer := 0\<rparr>"
      from update_gap_end [OF ra g ge, of px py] u
      have n: "next_pattern ?m0 = Inr m'" by (simp split: sum.splits)
      show ?thesis
      proof (cases "current_pattern_index ?m0 + 1 < length (attack_queue ?m0)")
        case True
        from next_pattern_advance [OF True] n show ?thesis by auto
      next
        case False
        then have "length (attack_queue ?m0) \<le> current_pattern_index ?m0 + 1" by simp
        from next_pattern_exhausted [OF this] n show ?thesis by auto
      qed
    qed
  next
    case ng: False
    show ?thesis
    proof (cases "pattern_timer m + 1 < ATTACK_DURATION S")
      case False
      then have "ATTACK_DURATION S \<le> pattern_timer m + 1" by simp
      from update_pattern_end [OF ra ng this, of px py] u
      have "m' = end_current_pattern (m\<lparr>pattern_timer := pattern_timer m + 1\<rparr>)" by simp
      then show ?thesis using ok
        by (simp add: end_current_pattern_def group_empty_def)
    next
      case True
      let ?m1 = "m\<lparr>pattern_timer := pattern_timer m + 1\<rparr>"
      note r = update_running [OF ra ng True, of px py]
      from r u obtain m2 where e1: "execute_current_pattern S px py ?m1 = Inr m2"
        by (auto split: sum.splits)
      have s2: "sched m2 = sched ?m1" by (rule sched_execute_current_pattern [OF e1])
      have ok1: "secondary_ok ?m1" using ok by simp
      have "sched m' = sched ?m1"
      proof (cases "truthy (secondary_pattern m)")
        case False
        then have "m' = m2" using r u e1 by simp
        then show ?thesis using s2 by simp
      next
        case True
        then have "execute_secondary_pattern S px py m2 = Inr m'"
          using r u e1 by (auto split: sum.splits)
        from sched_execute_secondary_pattern [OF this] s2 show ?thesis by simp
      qed
      from secondary_ok_sched [OF this] ok1 show ?thesis by simp
    qed
  qed
qed

lemma fill_queue_total:
  "\<exists>m'. fill_queue k m = Inr m' \<and> length (attack_queue m') = length (attack_queue m) + k"
proof (induction k arbitrary: m)
  case 0
  then show ?case by simp
next
  case (Suc k)
  have ne: "PATTERN_TYPES \<noteq> []" using PATTERN_TYPES_length by auto
  let ?p = "PATTERN_TYPES ! (fst (next_draw (rng m)) mod length PATTERN_TYPES)"
  let ?m1 = "m\<lparr>rng := snd (next_draw (rng m))\<rparr>"
  from Suc [of "?m1\<lparr>attack_queue := attack_queue ?m1 @ [?p]\<rparr>"]
  show ?case by (simp add: m_choice_nonempty [OF ne])
qed

lemma start_new_round_result:
  assumes "start_new_round S m = Inr m'"
  shows "round_active m'" and "secondary_ok m'"
proof -
  from assms obtain m2 where "begin_round m2 = Inr m'"
    by (auto simp: start_new_round_def Let_def split: sum.splits prod.splits)
  from begin_round_result(2,5) [OF this] show "round_active m'" and "secondary_ok m'" .
qed

lemma start_new_round_total:
  assumes "1 \<le> PATTERNS_PER_ROUND S"
  shows "\<exists>m'. start_new_round S m = Inr m'"
proof -
  let ?k = "min (PATTERNS_PER_ROUND S) (int (length PATTERN_TYPES))"
  have l: "int (length PATTERN_TYPES) = 11" by (simp add: PATTERN_TYPES_length)
  have k: "0 \<le> ?k" "?k \<le> int (length PATTERN_TYPES)" "1 \<le> ?k"
    using assms unfolding l by linarith+
  let ?q = "fst (sample_picks PATTERN_TYPES (nat ?k) (rng m))"
  let ?m1 = "m\<lparr>rng := snd (sample_picks PATTERN_TYPES (nat ?k) (rng m))\<rparr>"
  have s: "m_sample PATTERN_TYPES ?k m = Inr (?q, ?m1)"
    by (rule m_sample_ok [OF k(1) k(2)])
  have lq: "length ?q = nat ?k"
    using k(2) by (simp add: sample_picks_length del: sample_picks.simps)
  obtain m2 where f: "fill_queue (nat (PATTERNS_PER_ROUND S - int (length ?q)))
      (?m1\<lparr>attack_queue := ?q\<rparr>) = Inr m2"
    and l2: "length (attack_queue m2) = length (attack_queue (?m1\<lparr>attack_queue := ?q\<rparr>))
      + nat (PATTERNS_PER_ROUND S - int (length ?q))"
    using fill_queue_total by blast
  have "0 < nat ?k" using k(3) by linarith
  then have "0 < length ?q" using lq by linarith
  then have "0 < length (attack_queue m2)" using l2 by simp
  then have "attack_queue m2 \<noteq> []" by (metis length_greater_0_conv)
  from begin_round_total [OF this] obtain m' where "begin_round m2 = Inr m'" by blast
  then have "start_new_round S m = Inr m'"
    using s f by (simp add: start_new_round_def Let_def)
  then show ?thesis by blast
qed

text \<open>
  In every reachable state with an active round the pair of current and secondary pattern
  is well formed.
\<close>

lemma reachable_invariant:
  "reachable S m \<Longrightarrow> round_active m \<longrightarrow> secondary_ok m"
proof (induction rule: reachable.induct)
  case (r_init box sprites grp rs m)
  then show ?case using start_new_round_result(2) by (simp add: AttackManager_init_def)
next
  case (r_update m px py b m')
  then show ?case using update_invariant by blast
next
  case (r_start_round m m')
  then show ?case using start_new_round_result(2) by (simp add: start_round_def)
next
  case (r_start_count m n m')
  from start_round_count_general [of n m] r_start_count(2) show ?case by auto
next
  case (r_reset m)
  then show ?case by (simp add: reset_def group_empty_def)
next
  case (r_set_difficulty m d)
  then show ?case by (simp add: set_difficulty_def)
next
  case (r_clear_bullets m)
  then show ?case by (simp add: clear_bullets_def group_empty_def)
next
  case (r_set_patterns m c)
  then show ?case by (simp add: set_patterns_per_round_def)
next
  case (r_battle_box m h g)
  then show ?case by simp
qed

text \<open>
  Claim C10. In every reachable state of the attack manager with an active round there is
  a current pattern, and the secondary pattern is either \<open>None\<close> or a basic pattern
  different from the current pattern, which is then basic itself; so it is \<open>None\<close>
  whenever the current pattern is a complex pattern.
\<close>

theorem secondary_pattern_invariant:
  assumes "reachable S m" "round_active m"
  shows "\<exists>cur. current_pattern m = Some cur \<and>
           (secondary_pattern m = None \<or>
            (\<exists>sec. secondary_pattern m = Some sec \<and> sec \<in> set BASIC_PATTERNS \<and>
                   cur \<in> set BASIC_PATTERNS \<and> sec \<noteq> cur)) \<and>
           (cur \<in> set COMPLEX_PATTERNS \<longrightarrow> secondary_pattern m = None)"
proof -
  from reachable_invariant [OF assms(1)] assms(2) have ok: "secondary_ok m" by simp
  then obtain cur where c: "current_pattern m = Some cur"
    by (auto simp: secondary_ok_def split: option.splits)
  show ?thesis
  proof (cases "secondary_pattern m")
    case None
    then show ?thesis using c by simp
  next
    case (Some sec)
    then have "sec \<in> set BASIC_PATTERNS \<and> sec \<noteq> cur \<and> cur \<in> set BASIC_PATTERNS"
      using ok c by (simp add: secondary_ok_def)
    then show ?thesis using c Some basic_not_complex by auto
  qed
qed

text \<open>
  The theorem of C10 at the state the constructor returns for the sample settings.
\<close>

theorem secondary_pattern_invariant_witness:
  "\<exists>m. AttackManager_init sample_settings sample_box [] [] [] = Inr m \<and>
        reachable sample_settings m \<and> round_active m \<and>
        (\<exists>cur. current_pattern m = Some cur \<and>
           (secondary_pattern m = None \<or>
            (\<exists>sec. secondary_pattern m = Some sec \<and> sec \<in> set BASIC_PATTERNS \<and>
                   cur \<in> set BASIC_PATTERNS \<and> sec \<noteq> cur)))"
proof -
  have "1 \<le> PATTERNS_PER_ROUND sample_settings" by (simp add: sample_settings_def)
  from start_new_round_total [OF this] obtain m where
    i: "AttackManager_init sample_settings sample_box [] [] [] = Inr m"
    unfolding AttackManager_init_def by blast
  have r: "reachable sample_settings m" by (rule r_init [OF i])
  have a: "round_active m"
    using i start_new_round_result(1) by (simp add: AttackManager_init_def)
  from secondary_pattern_invariant [OF r a] i r a show ?thesis by blast
qed

section \<open>Dispatch of the secondary pattern\<close>

lemma execute_secondary_skips:
  assumes "secondary_pattern m = Some ''spiral'' \<or> secondary_pattern m = Some ''laser_warning''"
  shows "execute_secondary_pattern S px py m = Inr m"
  using assms by (auto simp: execute_secondary_pattern_def)

text \<open>
  The four secondary patterns that \<open>_execute_secondary_pattern\<close> does run, each on the
  secondary counter.
\<close>

lemma execute_secondary_runs:
  "secondary_pattern m = Some ''line_rain'' \<Longrightarrow>
     execute_secondary_pattern S px py m = pattern_line_rain S True m"
  "secondary_pattern m = Some ''circle_burst'' \<Longrightarrow>
     execute_secondary_pattern S px py m = pattern_circle_burst S True m"
  "secondary_pattern m = Some ''targeting'' \<Longrightarrow>
     execute_secondary_pattern S px py m = pattern_targeting S px py True m"
  "secondary_pattern m = Some ''bouncing_walls'' \<Longrightarrow>
     execute_secondary_pattern S px py m = pattern_bouncing_walls True m"
  by (simp_all add: execute_secondary_pattern_def)

lemma execute_current_runs_spiral_laser:
  "current_pattern m = Some ''spiral'' \<Longrightarrow>
     execute_current_pattern S px py m = pattern_spiral S m"
  "current_pattern m = Some ''laser_warning'' \<Longrightarrow>
     execute_current_pattern S px py m = pattern_laser_warning m"
  by (simp_all add: execute_current_pattern_def)

text \<open>
  In general: with \<open>spiral\<close> or \<open>laser_warning\<close> as the secondary pattern a running tick
  is the primary pattern alone.
\<close>

lemma update_skips_secondary:
  assumes "round_active m" "\<not> in_gap m" "pattern_timer m + 1 < ATTACK_DURATION S"
    and "secondary_pattern m = Some ''spiral'' \<or> secondary_pattern m = Some ''laser_warning''"
  shows "AttackManager_update S px py m =
           (case execute_current_pattern S px py (m\<lparr>pattern_timer := pattern_timer m + 1\<rparr>) of
              Inl e \<Rightarrow> Inl e | Inr m2 \<Rightarrow> Inr (True, m2))"
proof (cases "execute_current_pattern S px py (m\<lparr>pattern_timer := pattern_timer m + 1\<rparr>)")
  case (Inl e)
  then show ?thesis using update_running [OF assms(1,2,3), of px py] by simp
next
  case (Inr m2)
  from sched_execute_current_pattern [OF Inr]
  have "secondary_pattern m2 = secondary_pattern m" by (simp add: sched_def)
  then have "execute_secondary_pattern S px py m2 = Inr m2"
    using assms(4) execute_secondary_skips by simp
  then show ?thesis using update_running [OF assms(1,2,3), of px py] Inr by simp
qed

lemma line_rain_waits:
  "pattern_line_rain sample_settings False
     ((sample_round ''line_rain'' sec)\<lparr>pattern_timer := 1\<rparr>)
   = Inr ((sample_round ''line_rain'' sec)\<lparr>pattern_timer := 1, pattern_internal_timer := 1\<rparr>)"
  by (simp add: pattern_line_rain_def tick_timer_def read_timer_def write_timer_def
      sample_round_def blank_manager_def sample_settings_def py_int_def Let_def)

text \<open>
  Claim C3 fails on the code. In a running round of \<open>line_rain\<close> with the secondary
  pattern \<open>spiral\<close> or \<open>laser_warning\<close>, one tick does exactly what it does with no
  secondary pattern: it advances the pattern counter and the primary pattern's own
  counter, and nothing of the secondary pattern runs. With the secondary pattern
  \<open>circle_burst\<close> the same tick also advances the secondary counter, and
  \<open>laser_warning\<close> as the primary pattern advances its laser counter.
\<close>

theorem secondary_spiral_laser_not_executed:
  "AttackManager_update sample_settings 0 0 (sample_round ''line_rain'' (Some ''spiral''))
     = Inr (True, (sample_round ''line_rain'' (Some ''spiral''))
                    \<lparr>pattern_timer := 1, pattern_internal_timer := 1\<rparr>) \<and>
   AttackManager_update sample_settings 0 0 (sample_round ''line_rain'' (Some ''laser_warning''))
     = Inr (True, (sample_round ''line_rain'' (Some ''laser_warning''))
                    \<lparr>pattern_timer := 1, pattern_internal_timer := 1\<rparr>) \<and>
   AttackManager_update sample_settings 0 0 (sample_round ''line_rain'' None)
     = Inr (True, (sample_round ''line_rain'' None)
                    \<lparr>pattern_timer := 1, pattern_internal_timer := 1\<rparr>) \<and>
   AttackManager_update sample_settings 0 0 (sample_round ''line_rain'' (Some ''circle_burst''))
     = Inr (True, (sample_round ''line_rain'' (Some ''circle_burst''))
                    \<lparr>pattern_timer := 1, pattern_internal_timer := 1,
                     pattern_internal_timer_2 := 1\<rparr>) \<and>
   AttackManager_update sample_settings 0 0 (sample_round ''laser_warning'' None)
     = Inr (True, (sample_round ''laser_warning'' None)
                    \<lparr>pattern_timer := 1, laser_spawn_timer := 1\<rparr>)"
proof -
  have run: "round_active (sample_round c s)" "\<not> in_gap (sample_round c s)"
    "pattern_timer (sample_round c s) + 1 < ATTACK_DURATION sample_settings"
    "secondary_pattern (sample_round c s) = s"
    "current_pattern (sample_round c s) = Some c"
    "(sample_round c s)\<lparr>pattern_timer := pattern_timer (sample_round c s) + 1\<rparr>
       = (sample_round c s)\<lparr>pattern_timer := 1\<rparr>" for c s
    by (simp_all add: sample_round_def blank_manager_def sample_settings_def)
  have cur: "execute_current_pattern sample_settings 0 0
      ((sample_round ''line_rain'' s)\<lparr>pattern_timer := 1\<rparr>)
      = Inr ((sample_round ''line_rain'' s)\<lparr>pattern_timer := 1, pattern_internal_timer := 1\<rparr>)" for s
    using line_rain_waits [of s]
    by (simp add: execute_current_pattern_def sample_round_def blank_manager_def)
  have a: "AttackManager_update sample_settings 0 0 (sample_round ''line_rain'' (Some ''spiral''))
     = Inr (True, (sample_round ''line_rain'' (Some ''spiral''))
                    \<lparr>pattern_timer := 1, pattern_internal_timer := 1\<rparr>)"
    using update_skips_secondary 
        [OF run(1,2,3) [of "''line_rain''" "Some ''spiral''"], of 0 0]
    by (simp add: run cur)
  have b: "AttackManager_update sample_settings 0 0 (sample_round ''line_rain'' (Some ''laser_warning''))
     = Inr (True, (sample_round ''line_rain'' (Some ''laser_warning''))
                    \<lparr>pattern_timer := 1, pattern_internal_timer := 1\<rparr>)"
    using update_skips_secondary 
        [OF run(1,2,3) [of "''line_rain''" "Some ''laser_warning''"], of 0 0]
    by (simp add: run cur)
  have c: "AttackManager_update sample_settings 0 0 (sample_round ''line_rain'' None)
     = Inr (True, (sample_round ''line_rain'' None)
                    \<lparr>pattern_timer := 1, pattern_internal_timer := 1\<rparr>)"
    using update_running 
        [OF run(1,2,3) [of "''line_rain''" None], of 0 0]
    by (simp add: run cur truthy_def)
  have sec: "execute_secondary_pattern sample_settings 0 0
      ((sample_round ''line_rain'' (Some ''circle_burst''))
         \<lparr>pattern_timer := 1, pattern_internal_timer := 1\<rparr>)
      = Inr ((sample_round ''line_rain'' (Some ''circle_burst''))
         \<lparr>pattern_timer := 1, pattern_internal_timer := 1, pattern_internal_timer_2 := 1\<rparr>)"
    by (simp add: execute_secondary_pattern_def pattern_circle_burst_def tick_timer_def
        read_timer_def write_timer_def sample_round_def blank_manager_def sample_settings_def
        py_int_def Let_def)
  have d: "AttackManager_update sample_settings 0 0 (sample_round ''line_rain'' (Some ''circle_burst''))
     = Inr (True, (sample_round ''line_rain'' (Some ''circle_burst''))
                    \<lparr>pattern_timer := 1, pattern_internal_timer := 1,
                     pattern_internal_timer_2 := 1\<rparr>)"
    using update_running 
        [OF run(1,2,3) [of "''line_rain''" "Some ''circle_burst''"], of 0 0]
    by (simp add: run cur sec truthy_def)
  have lw: "execute_current_pattern sample_settings 0 0
      ((sample_round ''laser_warning'' None)\<lparr>pattern_timer := 1\<rparr>)
      = Inr ((sample_round ''laser_warning'' None)\<lparr>pattern_timer := 1, laser_spawn_timer := 1\<rparr>)"
    by (simp add: execute_current_pattern_def pattern_laser_warning_def sample_round_def
        blank_manager_def Let_def)
  have e: "AttackManager_update sample_settings 0 0 (sample_round ''laser_warning'' None)
     = Inr (True, (sample_round ''laser_warning'' None)
                    \<lparr>pattern_timer := 1, laser_spawn_timer := 1\<rparr>)"
    using update_running 
        [OF run(1,2,3) [of "''laser_warning''" None], of 0 0]
    by (simp add: run lw truthy_def)
  show ?thesis using a b c d e by blast
qed

section \<open>Player invulnerability\<close>

lemma invuln_iter:
  "0 \<le> invulnerability_timer p \<Longrightarrow>
   (update_invulnerability ^^ k) p =
     p\<lparr>invulnerability_timer := max 0 (invulnerability_timer p - int k)\<rparr>"
proof (induction k)
  case 0
  then show ?case by simp
next
  case (Suc k)
  then show ?case by (simp add: update_invulnerability_def max_def)
qed

text \<open>
  Claim C5. \<open>take_damage\<close> with a positive invulnerability timer returns false and
  leaves the player as it was. With the timer at zero it returns true, sets
  \<open>hp\<close> to \<open>max 0 (hp - damage)\<close> (not above the old value for a damage of at least zero,
  strictly below it for a positive damage on positive hit points) and sets the timer to
  \<open>INVULNERABILITY_TIME\<close>. After such a hit and \<open>k\<close> calls of
  \<open>update_invulnerability\<close>, a second hit is rejected with the hit points untouched
  while \<open>k < INVULNERABILITY_TIME\<close>, and succeeds once \<open>k \<ge> INVULNERABILITY_TIME\<close>.
\<close>

theorem take_damage_invulnerability:
  "(0 < invulnerability_timer p \<longrightarrow> take_damage T d p = (False, p)) \<and>
   (invulnerability_timer p = 0 \<longrightarrow>
      fst (take_damage T d p) \<and>
      hp (snd (take_damage T d p)) = max 0 (hp p - d) \<and>
      invulnerability_timer (snd (take_damage T d p)) = T \<and>
      (0 \<le> d \<and> 0 \<le> hp p \<longrightarrow> hp (snd (take_damage T d p)) \<le> hp p) \<and>
      (0 < d \<and> 0 < hp p \<longrightarrow> hp (snd (take_damage T d p)) < hp p) \<and>
      (\<forall>k d2. int k < T \<longrightarrow>
         take_damage T d2 ((update_invulnerability ^^ k) (snd (take_damage T d p)))
           = (False, (update_invulnerability ^^ k) (snd (take_damage T d p))) \<and>
         hp ((update_invulnerability ^^ k) (snd (take_damage T d p))) = max 0 (hp p - d)) \<and>
      (\<forall>k d2. 0 \<le> T \<and> T \<le> int k \<longrightarrow>
         fst (take_damage T d2 ((update_invulnerability ^^ k) (snd (take_damage T d p)))) \<and>
         hp (snd (take_damage T d2 ((update_invulnerability ^^ k) (snd (take_damage T d p)))))
           = max 0 (max 0 (hp p - d) - d2)))"
proof (intro conjI impI allI)
  assume "0 < invulnerability_timer p"
  then show "take_damage T d p = (False, p)" by (simp add: take_damage_def)
next
  assume z: "invulnerability_timer p = 0"
  show "fst (take_damage T d p)" using z by (simp add: take_damage_def)
  show "hp (snd (take_damage T d p)) = max 0 (hp p - d)" using z by (simp add: take_damage_def)
  show "invulnerability_timer (snd (take_damage T d p)) = T" using z by (simp add: take_damage_def)
next
  assume "invulnerability_timer p = 0" "0 \<le> d \<and> 0 \<le> hp p"
  then show "hp (snd (take_damage T d p)) \<le> hp p" by (simp add: take_damage_def)
next
  assume "invulnerability_timer p = 0" "0 < d \<and> 0 < hp p"
  then show "hp (snd (take_damage T d p)) < hp p" by (simp add: take_damage_def)
next
  fix k d2
  assume z: "invulnerability_timer p = 0" and k: "int k < T"
  let ?q = "snd (take_damage T d p)"
  have q: "?q = p\<lparr>hp := max 0 (hp p - d), invulnerability_timer := T\<rparr>"
    using z by (simp add: take_damage_def)
  have "0 \<le> invulnerability_timer ?q" using k q by simp
  from invuln_iter [OF this, of k]
  have it: "(update_invulnerability ^^ k) ?q = ?q\<lparr>invulnerability_timer := max 0 (T - int k)\<rparr>"
    using q by simp
  show "take_damage T d2 ((update_invulnerability ^^ k) ?q)
          = (False, (update_invulnerability ^^ k) ?q)"
    unfolding it using k by (simp add: take_damage_def)
  show "hp ((update_invulnerability ^^ k) ?q) = max 0 (hp p - d)"
    unfolding it using q by simp
next
  fix k d2
  assume z: "invulnerability_timer p = 0" and k: "0 \<le> T \<and> T \<le> int k"
  let ?q = "snd (take_damage T d p)"
  have q: "?q = p\<lparr>hp := max 0 (hp p - d), invulnerability_timer := T\<rparr>"
    using z by (simp add: take_damage_def)
  have "0 \<le> invulnerability_timer ?q" using k q by simp
  from invuln_iter [OF this, of k]
  have it: "(update_invulnerability ^^ k) ?q = ?q\<lparr>invulnerability_timer := max 0 (T - int k)\<rparr>"
    using q by simp
  show "fst (take_damage T d2 ((update_invulnerability ^^ k) ?q))"
    unfolding it using k by (simp add: take_damage_def)
  show "hp (snd (take_damage T d2 ((update_invulnerability ^^ k) ?q)))
          = max 0 (max 0 (hp p - d) - d2)"
    unfolding it using k q by (simp add: take_damage_def)
qed

text \<open>
  The theorem of C5 at a player with 20 hit points, a window of 30 ticks and hits of
  5 and 3: rejected after 10 ticks, applied after 30.
\<close>

theorem take_damage_invulnerability_witness:
  "invulnerability_timer \<lparr>hp = 20, max_hp = 20, invulnerability_timer = 0\<rparr> = 0 \<and>
   take_damage 30 5 \<lparr>hp = 20, max_hp = 20, invulnerability_timer = 0\<rparr>
     = (True, \<lparr>hp = 15, max_hp = 20, invulnerability_timer = 30\<rparr>) \<and>
   int 10 < 30 \<and>
   take_damage 30 3 ((update_invulnerability ^^ 10) \<lparr>hp = 15, max_hp = 20, invulnerability_timer = 30\<rparr>)
     = (False, (update_invulnerability ^^ 10) \<lparr>hp = 15, max_hp = 20, invulnerability_timer = 30\<rparr>) \<and>
   (0::int) \<le> 30 \<and> (30::int) \<le> int 30 \<and>
   fst (take_damage 30 3 ((update_invulnerability ^^ 30) \<lparr>hp = 15, max_hp = 20, invulnerability_timer = 30\<rparr>)) \<and>
   hp (snd (take_damage 30 3 ((update_invulnerability ^^ 30) \<lparr>hp = 15, max_hp = 20, invulnerability_timer = 30\<rparr>))) = 12 \<and>
   0 < invulnerability_timer \<lparr>hp = 15, max_hp = 20, invulnerability_timer = 30\<rparr> \<and>
   take_damage 30 3 \<lparr>hp = 15, max_hp = 20, invulnerability_timer = 30\<rparr>
     = (False, \<lparr>hp = 15, max_hp = 20, invulnerability_timer = 30\<rparr>)"
proof -
  let ?p = "\<lparr>hp = 20, max_hp = 20, invulnerability_timer = 0\<rparr>"
  let ?q = "\<lparr>hp = 15, max_hp = 20, invulnerability_timer = 30\<rparr>"
  have z: "invulnerability_timer ?p = 0" by simp
  have t: "take_damage 30 5 ?p = (True, ?q)" by (simp add: take_damage_def)
  then have s: "snd (take_damage 30 5 ?p) = ?q" by simp
  have k1: "int 10 < 30" and k2: "(0::int) \<le> 30 \<and> (30::int) \<le> int 30" by simp_all
  from take_damage_invulnerability [of ?p 30 5] z
  have a: "\<forall>k d2. int k < 30 \<longrightarrow>
         take_damage 30 d2 ((update_invulnerability ^^ k) (snd (take_damage 30 5 ?p)))
           = (False, (update_invulnerability ^^ k) (snd (take_damage 30 5 ?p))) \<and>
         hp ((update_invulnerability ^^ k) (snd (take_damage 30 5 ?p))) = max 0 (hp ?p - 5)"
    and b: "\<forall>k d2. (0::int) \<le> 30 \<and> 30 \<le> int k \<longrightarrow>
         fst (take_damage 30 d2 ((update_invulnerability ^^ k) (snd (take_damage 30 5 ?p)))) \<and>
         hp (snd (take_damage 30 d2 ((update_invulnerability ^^ k) (snd (take_damage 30 5 ?p)))))
           = max 0 (max 0 (hp ?p - 5) - d2)"
    by blast+
  from a k1 have a': "take_damage 30 3 ((update_invulnerability ^^ 10) ?q)
           = (False, (update_invulnerability ^^ 10) ?q)"
    unfolding s by blast
  from b k2 have b': "fst (take_damage 30 3 ((update_invulnerability ^^ 30) ?q)) \<and>
         hp (snd (take_damage 30 3 ((update_invulnerability ^^ 30) ?q)))
           = max 0 (max 0 (hp ?p - 5) - 3)"
    unfolding s by blast
  then have b'': "fst (take_damage 30 3 ((update_invulnerability ^^ 30) ?q))"
    and b3: "hp (snd (take_damage 30 3 ((update_invulnerability ^^ 30) ?q))) = 12"
    by simp_all
  have c0: "0 < invulnerability_timer ?q" by simp
  from take_damage_invulnerability [of ?q 30 3] c0
  have c: "take_damage 30 3 ?q = (False, ?q)" by blast
  show ?thesis using z t k1 k2 a' b'' b3 c0 c by blast
qed

section \<open>FIGHT damage multiplier\<close>

lemma damage_multiplier_eq: "damage_multiplier p = 1 - 0.8 * \<bar>p - 0.5\<bar>"
  by (simp add: damage_multiplier_def)

lemma damage_multiplier_range:
  "0 \<le> p \<Longrightarrow> p \<le> 1 \<Longrightarrow> 0.6 \<le> damage_multiplier p \<and> damage_multiplier p \<le> 1"
  unfolding damage_multiplier_eq by (simp add: abs_if)

lemma process_fight_attack_some:
  "process_fight_attack D p (Some h) =
     Some (py_int (D * damage_multiplier p), max 0 (h - py_int (D * damage_multiplier p)))"
  by (simp add: process_fight_attack_def fight_damage_def Let_def)

text \<open>
  Claim C4 as stated fails at the ends of the bar: the multiplier there is \<open>0.6\<close>, not \<open>0.2\<close>.
\<close>

theorem fight_multiplier_edge_counterexample:
  "damage_multiplier 0 = 0.6 \<and> damage_multiplier 0 \<noteq> 0.2 \<and>
   damage_multiplier 1 = 0.6 \<and> damage_multiplier 1 \<noteq> 0.2"
  by (simp add: damage_multiplier_def)

text \<open>
  Claim C4, amended. Resolving the FIGHT mini-game at bar position \<open>p\<close> applies the
  multiplier \<open>1 - 0.8 * |p - 0.5|\<close> to \<open>PLAYER_ATTACK_DAMAGE\<close> (truncated to an int).
  The multiplier is \<open>1\<close> at \<open>p = 0.5\<close>, it is \<open>0.6\<close> (not \<open>0.2\<close>) at \<open>p = 0\<close> and at
  \<open>p = 1\<close>, it decreases strictly as \<open>|p - 0.5|\<close> grows, and on \<open>[0, 1]\<close> it stays within
  \<open>[0.6, 1]\<close>.
\<close>

theorem fight_multiplier_formula:
  "damage_multiplier p = 1 - 0.8 * \<bar>p - 0.5\<bar> \<and>
   damage_multiplier 0.5 = 1 \<and>
   damage_multiplier 0 = 0.6 \<and>
   damage_multiplier 1 = 0.6 \<and>
   (\<bar>p - 0.5\<bar> < \<bar>q - 0.5\<bar> \<longrightarrow> damage_multiplier q < damage_multiplier p) \<and>
   (\<bar>p - 0.5\<bar> = \<bar>q - 0.5\<bar> \<longrightarrow> damage_multiplier q = damage_multiplier p) \<and>
   (0 \<le> p \<and> p \<le> 1 \<longrightarrow> 0.6 \<le> damage_multiplier p \<and> damage_multiplier p \<le> 1) \<and>
   process_fight_attack D p (Some h) =
     Some (py_int (D * damage_multiplier p), max 0 (h - py_int (D * damage_multiplier p)))"
proof (intro conjI impI)
  show "damage_multiplier p = 1 - 0.8 * \<bar>p - 0.5\<bar>" by (rule damage_multiplier_eq)
  show "damage_multiplier 0.5 = 1" by (simp add: damage_multiplier_eq)
  show "damage_multiplier 0 = 0.6" by (simp add: damage_multiplier_eq)
  show "damage_multiplier 1 = 0.6" by (simp add: damage_multiplier_eq)
next
  assume "\<bar>p - 0.5\<bar> < \<bar>q - 0.5\<bar>"
  then show "damage_multiplier q < damage_multiplier p" by (simp add: damage_multiplier_eq)
next
  assume "\<bar>p - 0.5\<bar> = \<bar>q - 0.5\<bar>"
  then show "damage_multiplier q = damage_multiplier p" by (simp add: damage_multiplier_eq)
next
  assume a: "0 \<le> p \<and> p \<le> 1"
  then show "0.6 \<le> damage_multiplier p" using damage_multiplier_range by blast
  from a show "damage_multiplier p \<le> 1" using damage_multiplier_range by blast
next
  show "process_fight_attack D p (Some h) =
     Some (py_int (D * damage_multiplier p), max 0 (h - py_int (D * damage_multiplier p)))"
    by (rule process_fight_attack_some)
qed

text \<open>
  The theorem of C4 at \<open>p = 0.5\<close>, \<open>q = 0.25\<close>, an attack damage of 10 and an enemy with
  20 hit points.
\<close>

theorem fight_multiplier_formula_witness:
  "\<bar>(0.5::real) - 0.5\<bar> < \<bar>0.25 - 0.5\<bar> \<and> damage_multiplier 0.25 < damage_multiplier 0.5 \<and>
   (0::real) \<le> 0.5 \<and> (0.5::real) \<le> 1 \<and> damage_multiplier 0.5 = 1 \<and>
   process_fight_attack 10 0.5 (Some 20) = Some (10, 10)"
  using fight_multiplier_formula [of "0.5" "0.25" 10 20]
  by (simp add: py_int_def)

section \<open>Gravity well force\<close>

lemma sqrt25: "sqrt 25 = 5"
  using real_sqrt_abs [of 5] by simp

lemma sqrt100: "sqrt 100 = 10"
  using real_sqrt_abs [of 10] by simp

lemma vec_len_scale:
  assumes "0 < d" "d = sqrt (dx * dx + dy * dy)"
  shows "vec_len ((dx / d) * m, (dy / d) * m) = \<bar>m\<bar>"
proof -
  have dd: "d * d = dx * dx + dy * dy"
    using assms by (metis abs_of_pos real_sqrt_mult_self less_imp_le real_sqrt_ge_0_iff
        real_sqrt_pow2 power2_eq_square sum_squares_ge_zero add_nonneg_nonneg zero_le_square)
  have "(dx / d) * m * ((dx / d) * m) + (dy / d) * m * ((dy / d) * m)
      = (dx * dx + dy * dy) / (d * d) * (m * m)"
    by (simp add: add_divide_distrib algebra_simps)
  also have "\<dots> = (d * d) / (d * d) * (m * m)" by (simp only: dd)
  also have "\<dots> = m * m" using assms(1) by simp
  finally show ?thesis by (simp add: vec_len_def)
qed

lemma vec_len_smult: "vec_len (s * dx, s * dy) = \<bar>s\<bar> * sqrt (dx * dx + dy * dy)"
proof -
  have "s * dx * (s * dx) + s * dy * (s * dy) = (s * s) * (dx * dx + dy * dy)"
    by (simp add: algebra_simps)
  then show ?thesis by (simp add: vec_len_def real_sqrt_mult)
qed

lemma apply_force_active:
  "gw_active w \<Longrightarrow>
   apply_force w px py =
     ((gw_x w - px) / max (well_distance w px py) 10
        * (signed_strength w * (100 / max (well_distance w px py) 10)),
      (gw_y w - py) / max (well_distance w px py) 10
        * (signed_strength w * (100 / max (well_distance w px py) 10)))"
  by (simp add: apply_force_def well_distance_def signed_strength_def Let_def max_def)

lemma apply_force_far:
  assumes "gw_active w" "10 \<le> well_distance w px py"
  shows "vec_len (apply_force w px py) = \<bar>strength w\<bar> * (100 / well_distance w px py)"
proof -
  let ?d = "well_distance w px py"
  have m: "max ?d 10 = ?d" using assms(2) by simp
  have pos: "0 < ?d" using assms(2) by simp
  have "vec_len (apply_force w px py) = \<bar>signed_strength w * (100 / ?d)\<bar>"
    unfolding apply_force_active [OF assms(1)] m
    by (rule vec_len_scale [OF pos]) (simp add: well_distance_def)
  also have "\<dots> = \<bar>strength w\<bar> * (100 / ?d)"
    using pos by (simp add: signed_strength_def abs_mult)
  finally show ?thesis .
qed

lemma apply_force_near:
  assumes "gw_active w" "well_distance w px py < 10"
  shows "apply_force w px py =
           (signed_strength w * (gw_x w - px), signed_strength w * (gw_y w - py))"
    and "vec_len (apply_force w px py) = \<bar>strength w\<bar> * well_distance w px py"
    and "vec_len (apply_force w px py) \<le> 10 * \<bar>strength w\<bar>"
proof -
  have m: "max (well_distance w px py) 10 = 10" using assms(2) by simp
  show f: "apply_force w px py =
           (signed_strength w * (gw_x w - px), signed_strength w * (gw_y w - py))"
    unfolding apply_force_active [OF assms(1)] m by simp
  have "vec_len (apply_force w px py) = \<bar>signed_strength w\<bar> * well_distance w px py"
    unfolding f vec_len_smult by (simp add: well_distance_def)
  then show l: "vec_len (apply_force w px py) = \<bar>strength w\<bar> * well_distance w px py"
    by (simp add: signed_strength_def)
  have "\<bar>strength w\<bar> * well_distance w px py \<le> \<bar>strength w\<bar> * 10"
    using assms(2) by (intro mult_left_mono) simp_all
  then show "vec_len (apply_force w px py) \<le> 10 * \<bar>strength w\<bar>"
    using l by (simp add: mult.commute)
qed

text \<open>
  Claim C6 as stated fails inside the clamp radius: a well of strength 0.5 at the origin
  pulls a player at \<open>(3, 4)\<close>, distance 5, with the force \<open>(-1.5, -2)\<close> of magnitude 2.5,
  which is neither the force \<open>(-3, -4)\<close> at distance 10 in the same direction nor of
  magnitude \<open>strength * (100 / max 5 10) = 5\<close>.
\<close>

theorem gravity_force_near_counterexample:
  "gw_active (GravityWell_init 0 0 0.5 False 180) \<and>
   well_distance (GravityWell_init 0 0 0.5 False 180) 3 4 = 5 \<and>
   well_distance (GravityWell_init 0 0 0.5 False 180) 6 8 = 10 \<and>
   apply_force (GravityWell_init 0 0 0.5 False 180) 3 4 = (- 1.5, - 2) \<and>
   apply_force (GravityWell_init 0 0 0.5 False 180) 6 8 = (- 3, - 4) \<and>
   apply_force (GravityWell_init 0 0 0.5 False 180) 3 4
     \<noteq> apply_force (GravityWell_init 0 0 0.5 False 180) 6 8 \<and>
   vec_len (apply_force (GravityWell_init 0 0 0.5 False 180) 3 4) = 2.5 \<and>
   strength (GravityWell_init 0 0 0.5 False 180)
     * (100 / max (well_distance (GravityWell_init 0 0 0.5 False 180) 3 4) 10) = 5"
proof -
  let ?w = "GravityWell_init 0 0 0.5 False 180"
  have a: "gw_active ?w" by (simp add: GravityWell_init_def)
  have d1: "well_distance ?w 3 4 = 5"
    by (simp add: well_distance_def GravityWell_init_def sqrt25)
  have d2: "well_distance ?w 6 8 = 10"
    by (simp add: well_distance_def GravityWell_init_def sqrt100)
  have f1: "apply_force ?w 3 4 = (- 1.5, - 2)"
    unfolding apply_force_active [OF a] d1
    by (simp add: signed_strength_def GravityWell_init_def)
  have f2: "apply_force ?w 6 8 = (- 3, - 4)"
    unfolding apply_force_active [OF a] d2
    by (simp add: signed_strength_def GravityWell_init_def)
  have l: "vec_len (apply_force ?w 3 4) = 2.5"
    using apply_force_near(2) [of ?w 3 4] a d1 by (simp add: GravityWell_init_def)
  have s: "strength ?w * (100 / max (well_distance ?w 3 4) 10) = 5"
    unfolding d1 by (simp add: GravityWell_init_def)
  show ?thesis using a d1 d2 f1 f2 l s by simp
qed

text \<open>
  Claim C6, amended. An inactive well returns \<open>(0, 0)\<close>. An active well returns the vector
  from the player to the well, divided by \<open>d = max distance 10\<close> and scaled by
  \<open>strength * (100 / d)\<close>, negated when repelling. At a distance of at least 10 that force
  has magnitude \<open>|strength| * (100 / distance)\<close>. At a distance below 10 the divisor is 10
  in both places, so the force is \<open>strength\<close> times the vector from player to well
  (negated when repelling): its magnitude is \<open>|strength| * distance\<close>, at most
  \<open>10 * |strength|\<close>, and there is no singularity.
\<close>

theorem gravity_force_clamped:
  "(\<not> gw_active w \<longrightarrow> apply_force w px py = (0, 0)) \<and>
   (gw_active w \<longrightarrow>
      apply_force w px py =
        ((gw_x w - px) / max (well_distance w px py) 10
           * (signed_strength w * (100 / max (well_distance w px py) 10)),
         (gw_y w - py) / max (well_distance w px py) 10
           * (signed_strength w * (100 / max (well_distance w px py) 10)))) \<and>
   (gw_active w \<and> 10 \<le> well_distance w px py \<longrightarrow>
      vec_len (apply_force w px py) = \<bar>strength w\<bar> * (100 / well_distance w px py)) \<and>
   (gw_active w \<and> well_distance w px py < 10 \<longrightarrow>
      apply_force w px py =
        (signed_strength w * (gw_x w - px), signed_strength w * (gw_y w - py)) \<and>
      vec_len (apply_force w px py) = \<bar>strength w\<bar> * well_distance w px py \<and>
      vec_len (apply_force w px py) \<le> 10 * \<bar>strength w\<bar>)"
proof (intro conjI impI)
  assume "\<not> gw_active w"
  then show "apply_force w px py = (0, 0)" by (simp add: apply_force_def)
next
  assume "gw_active w"
  then show "apply_force w px py =
        ((gw_x w - px) / max (well_distance w px py) 10
           * (signed_strength w * (100 / max (well_distance w px py) 10)),
         (gw_y w - py) / max (well_distance w px py) 10
           * (signed_strength w * (100 / max (well_distance w px py) 10)))"
    by (rule apply_force_active)
next
  assume "gw_active w \<and> 10 \<le> well_distance w px py"
  then show "vec_len (apply_force w px py) = \<bar>strength w\<bar> * (100 / well_distance w px py)"
    using apply_force_far by blast
next
  assume a: "gw_active w \<and> well_distance w px py < 10"
  then show "apply_force w px py =
        (signed_strength w * (gw_x w - px), signed_strength w * (gw_y w - py))"
    using apply_force_near(1) by blast
  from a show "vec_len (apply_force w px py) = \<bar>strength w\<bar> * well_distance w px py"
    using apply_force_near(2) by blast
  from a show "vec_len (apply_force w px py) \<le> 10 * \<bar>strength w\<bar>"
    using apply_force_near(3) by blast
qed

text \<open>
  The theorem of C6 at the well of strength 0.5 at the origin and a player at \<open>(3, 4)\<close>.
\<close>

theorem gravity_force_clamped_witness:
  "gw_active (GravityWell_init 0 0 0.5 False 180) \<and>
   well_distance (GravityWell_init 0 0 0.5 False 180) 3 4 < 10 \<and>
   apply_force (GravityWell_init 0 0 0.5 False 180) 3 4 = (- 1.5, - 2) \<and>
   vec_len (apply_force (GravityWell_init 0 0 0.5 False 180) 3 4) = 2.5"
proof -
  let ?w = "GravityWell_init 0 0 0.5 False 180"
  have a: "gw_active ?w" by (simp add: GravityWell_init_def)
  have d1: "well_distance ?w 3 4 = 5"
    by (simp add: well_distance_def GravityWell_init_def sqrt25)
  have c: "gw_active ?w \<and> well_distance ?w 3 4 < 10" using a d1 by simp
  from gravity_force_clamped [of ?w 3 4] c
  have "apply_force ?w 3 4 =
          (signed_strength ?w * (gw_x ?w - 3), signed_strength ?w * (gw_y ?w - 4)) \<and>
        vec_len (apply_force ?w 3 4) = \<bar>strength ?w\<bar> * well_distance ?w 3 4 \<and>
        vec_len (apply_force ?w 3 4) \<le> 10 * \<bar>strength ?w\<bar>"
    by blast
  then have f: "apply_force ?w 3 4 =
          (signed_strength ?w * (gw_x ?w - 3), signed_strength ?w * (gw_y ?w - 4))"
    and l: "vec_len (apply_force ?w 3 4) = \<bar>strength ?w\<bar> * well_distance ?w 3 4"
    by blast+
  have f': "apply_force ?w 3 4 = (- 1.5, - 2)"
    unfolding f by (simp add: signed_strength_def GravityWell_init_def)
  have l': "vec_len (apply_force ?w 3 4) = 2.5"
    unfolding l d1 by (simp add: GravityWell_init_def)
  show ?thesis using c f' l' by blast
qed

section \<open>Laser beam states and collision\<close>

lemma funpow_split:
  assumes "n \<le> m"
  shows "(f ^^ m) x = (f ^^ (m - n)) ((f ^^ n) x)"
proof -
  have "(f ^^ ((m - n) + n)) x = (f ^^ (m - n)) ((f ^^ n) x)"
    by (simp only: funpow_add o_apply)
  then show ?thesis using assms by simp
qed

lemma funpow_last:
  assumes "m = Suc n"
  shows "(f ^^ m) x = f ((f ^^ n) x)"
  using assms by simp

lemma laser_step_rank:
  "laser_rank (lb_state l) \<le> laser_rank (lb_state (LaserBeam_update l)) \<and>
   laser_rank (lb_state (LaserBeam_update l)) \<le> laser_rank (lb_state l) + 1"
  by (cases "lb_state l") (simp_all add: LaserBeam_update_def Let_def)

lemma laser_iter_mono:
  "laser_rank (lb_state l) \<le> laser_rank (lb_state ((LaserBeam_update ^^ k) l))"
proof (induction k)
  case 0
  then show ?case by simp
next
  case (Suc k)
  have "laser_rank (lb_state ((LaserBeam_update ^^ k) l))
      \<le> laser_rank (lb_state (LaserBeam_update ((LaserBeam_update ^^ k) l)))"
    using laser_step_rank by blast
  then show ?case using Suc by simp
qed

lemma laser_iter_forward:
  assumes "n \<le> m"
  shows "laser_rank (lb_state ((LaserBeam_update ^^ n) l))
       \<le> laser_rank (lb_state ((LaserBeam_update ^^ m) l))"
proof -
  have "(LaserBeam_update ^^ m) l = (LaserBeam_update ^^ (m - n)) ((LaserBeam_update ^^ n) l)"
    using assms by (rule funpow_split)
  then show ?thesis using laser_iter_mono by simp
qed

lemma laser_done_terminal:
  "lb_state l = Done \<Longrightarrow> lb_state ((LaserBeam_update ^^ k) l) = Done"
proof (induction k)
  case 0
  then show ?case by simp
next
  case (Suc k)
  then show ?case by (simp add: LaserBeam_update_def Let_def)
qed

lemma laser_warning_iter:
  "lb_state l = Warning \<Longrightarrow> lb_timer l + int k < warning_duration l \<Longrightarrow>
   (LaserBeam_update ^^ k) l = l\<lparr>lb_timer := lb_timer l + int k\<rparr>"
proof (induction k)
  case 0
  then show ?case by simp
next
  case (Suc k)
  then show ?case by (simp add: LaserBeam_update_def Let_def)
qed

lemma laser_active_iter:
  "lb_state l = Active \<Longrightarrow> lb_timer l + int k < active_duration l \<Longrightarrow>
   (LaserBeam_update ^^ k) l = l\<lparr>lb_timer := lb_timer l + int k\<rparr>"
proof (induction k)
  case 0
  then show ?case by simp
next
  case (Suc k)
  then show ?case by (simp add: LaserBeam_update_def Let_def)
qed

lemma laser_timeline:
  "lb_state ((LaserBeam_update ^^ n) (LaserBeam_init box h pos)) =
     (if n < 30 then Warning else if n < 45 then Active else Done)"
proof -
  let ?l = "LaserBeam_init box h pos"
  have w: "\<And>k. k < 30 \<Longrightarrow> (LaserBeam_update ^^ k) ?l = ?l\<lparr>lb_timer := int k\<rparr>"
    using laser_warning_iter [of ?l] by (simp add: LaserBeam_init_def)
  have l30: "(LaserBeam_update ^^ 30) ?l = ?l\<lparr>lb_state := Active, lb_timer := 0\<rparr>"
  proof -
    have "(LaserBeam_update ^^ 30) ?l = LaserBeam_update ((LaserBeam_update ^^ 29) ?l)"
      by (rule funpow_last) simp
    then have "(LaserBeam_update ^^ 30) ?l = LaserBeam_update (?l\<lparr>lb_timer := int 29\<rparr>)"
      using w [of 29] by simp
    then show ?thesis by (simp add: LaserBeam_update_def Let_def LaserBeam_init_def)
  qed
  let ?a = "?l\<lparr>lb_state := Active, lb_timer := 0\<rparr>"
  have a: "\<And>k. k < 15 \<Longrightarrow> (LaserBeam_update ^^ k) ?a = ?a\<lparr>lb_timer := int k\<rparr>"
    using laser_active_iter [of ?a] by (simp add: LaserBeam_init_def)
  have a15: "lb_state ((LaserBeam_update ^^ 15) ?a) = Done"
  proof -
    have "(LaserBeam_update ^^ 15) ?a = LaserBeam_update ((LaserBeam_update ^^ 14) ?a)"
      by (rule funpow_last) simp
    then have "(LaserBeam_update ^^ 15) ?a = LaserBeam_update (?a\<lparr>lb_timer := int 14\<rparr>)"
      using a [of 14] by simp
    then show ?thesis by (simp add: LaserBeam_update_def Let_def LaserBeam_init_def)
  qed
  consider "n < 30" | "30 \<le> n" "n < 45" | "45 \<le> n" by linarith
  then show ?thesis
  proof cases
    case 1
    then show ?thesis using w [of n] by (simp add: LaserBeam_init_def)
  next
    case 2
    then have "(LaserBeam_update ^^ n) ?l = (LaserBeam_update ^^ (n - 30)) ((LaserBeam_update ^^ 30) ?l)"
      by (intro funpow_split) simp
    then have "(LaserBeam_update ^^ n) ?l = ?a\<lparr>lb_timer := int (n - 30)\<rparr>"
      using a [of "n - 30"] 2 l30 by simp
    then show ?thesis using 2 by simp
  next
    case 3
    then have "(LaserBeam_update ^^ n) ?l = (LaserBeam_update ^^ (n - 45)) ((LaserBeam_update ^^ 45) ?l)"
      by (intro funpow_split) simp
    moreover have "(LaserBeam_update ^^ 45) ?l = (LaserBeam_update ^^ (45 - 30)) ((LaserBeam_update ^^ 30) ?l)"
      by (intro funpow_split) simp
    then have "lb_state ((LaserBeam_update ^^ 45) ?l) = Done"
      using l30 a15 by simp
    ultimately show ?thesis using 3 laser_done_terminal by simp
  qed
qed

lemma colliderect_iff_shared_pixel:
  "colliderect a b \<longleftrightarrow> (\<exists>px py. pixel_in_rect a px py \<and> pixel_in_rect b px py)"
proof
  assume c: "colliderect a b"
  let ?px = "max (min (rect_x a) (rect_x a + rect_w a)) (min (rect_x b) (rect_x b + rect_w b))"
  let ?py = "max (min (rect_y a) (rect_y a + rect_h a)) (min (rect_y b) (rect_y b + rect_h b))"
  have "pixel_in_rect a ?px ?py \<and> pixel_in_rect b ?px ?py"
    using c unfolding colliderect_def pixel_in_rect_def by (auto simp: max_def min_def)
  then show "\<exists>px py. pixel_in_rect a px py \<and> pixel_in_rect b px py" by blast
next
  assume "\<exists>px py. pixel_in_rect a px py \<and> pixel_in_rect b px py"
  then obtain px py where "pixel_in_rect a px py" "pixel_in_rect b px py" by blast
  then show "colliderect a b"
    unfolding colliderect_def pixel_in_rect_def by (auto simp: max_def min_def)
qed

text \<open>
  Claim C7. Along every sequence of \<open>LaserBeam.update\<close> calls the state never moves
  backwards in the order warning, active, done, one call advances it by at most one
  state, and done is terminal. A new beam is in warning for its first 30 updates, active
  from the 30th to the 44th, and done from the 45th on. \<open>check_collision\<close> returns true
  only in the active state and only when the beam's rectangle shares a pixel with the
  box; that rectangle spans the arena along the beam and is 30 wide across it, centred
  on the beam's position.
\<close>

theorem laser_beam_forward_and_collision:
  "(n \<le> m \<longrightarrow>
      laser_rank (lb_state ((LaserBeam_update ^^ n) l))
        \<le> laser_rank (lb_state ((LaserBeam_update ^^ m) l))) \<and>
   laser_rank (lb_state (LaserBeam_update l)) \<le> laser_rank (lb_state l) + 1 \<and>
   (lb_state l = Done \<longrightarrow> lb_state ((LaserBeam_update ^^ n) l) = Done) \<and>
   lb_state ((LaserBeam_update ^^ n) (LaserBeam_init box h pos)) =
     (if n < 30 then Warning else if n < 45 then Active else Done) \<and>
   (check_collision l r \<longrightarrow>
      lb_state l = Active \<and>
      (\<exists>px py. pixel_in_rect (beam_rect l) px py \<and> pixel_in_rect r px py)) \<and>
   beam_rect (LaserBeam_init box True pos) = Rect (rect_left box) (pos - 15) (rect_w box) 30 \<and>
   beam_rect (LaserBeam_init box False pos) = Rect (pos - 15) (rect_top box) 30 (rect_h box)"
proof (intro conjI impI)
  assume "n \<le> m"
  then show "laser_rank (lb_state ((LaserBeam_update ^^ n) l))
        \<le> laser_rank (lb_state ((LaserBeam_update ^^ m) l))"
    by (rule laser_iter_forward)
next
  show "laser_rank (lb_state (LaserBeam_update l)) \<le> laser_rank (lb_state l) + 1"
    using laser_step_rank by blast
next
  assume "lb_state l = Done"
  then show "lb_state ((LaserBeam_update ^^ n) l) = Done" by (rule laser_done_terminal)
next
  show "lb_state ((LaserBeam_update ^^ n) (LaserBeam_init box h pos)) =
     (if n < 30 then Warning else if n < 45 then Active else Done)"
    by (rule laser_timeline)
next
  assume c: "check_collision l r"
  then show "lb_state l = Active" by (simp add: check_collision_def split: if_splits)
  from c have "colliderect (beam_rect l) r" by (simp add: check_collision_def split: if_splits)
  then show "\<exists>px py. pixel_in_rect (beam_rect l) px py \<and> pixel_in_rect r px py"
    by (simp only: colliderect_iff_shared_pixel)
next
  show "beam_rect (LaserBeam_init box True pos) = Rect (rect_left box) (pos - 15) (rect_w box) 30"
    by (simp add: beam_rect_def LaserBeam_init_def)
  show "beam_rect (LaserBeam_init box False pos) = Rect (pos - 15) (rect_top box) 30 (rect_h box)"
    by (simp add: beam_rect_def LaserBeam_init_def)
qed

text \<open>
  The theorem of C7 at a horizontal beam at \<open>y = 100\<close> in a 300 by 200 arena and a player
  box at \<open>(50, 95)\<close> of size 10 by 10.
\<close>

theorem laser_beam_forward_and_collision_witness:
  "(1::nat) \<le> 40 \<and>
   laser_rank (lb_state ((LaserBeam_update ^^ 1) (LaserBeam_init (Rect 0 0 300 200) True 100)))
     \<le> laser_rank (lb_state ((LaserBeam_update ^^ 40) (LaserBeam_init (Rect 0 0 300 200) True 100))) \<and>
   lb_state ((LaserBeam_update ^^ 1) (LaserBeam_init (Rect 0 0 300 200) True 100)) = Warning \<and>
   check_collision ((LaserBeam_init (Rect 0 0 300 200) True 100)\<lparr>lb_state := Active\<rparr>)
     (Rect 50 95 10 10) \<and>
   (\<exists>px py.
      pixel_in_rect (beam_rect ((LaserBeam_init (Rect 0 0 300 200) True 100)\<lparr>lb_state := Active\<rparr>)) px py \<and>
      pixel_in_rect (Rect 50 95 10 10) px py)"
proof -
  let ?l = "LaserBeam_init (Rect 0 0 300 200) True 100"
  let ?a = "?l\<lparr>lb_state := Active\<rparr>"
  let ?r = "Rect 50 95 10 10"
  have c: "check_collision ?a ?r"
    by (simp add: check_collision_def colliderect_def beam_rect_def LaserBeam_init_def
        Rect_def rect_left_def)
  have le: "(1::nat) \<le> 40" by simp
  from laser_beam_forward_and_collision [of 1 40 ?l "Rect 0 0 300 200" True 100 ?r] le
  have m: "laser_rank (lb_state ((LaserBeam_update ^^ 1) ?l))
             \<le> laser_rank (lb_state ((LaserBeam_update ^^ 40) ?l))"
    and t: "lb_state ((LaserBeam_update ^^ 1) ?l) = (if (1::nat) < 30 then Warning else if (1::nat) < 45 then Active else Done)"
    by blast+
  from laser_beam_forward_and_collision [of 1 40 ?a "Rect 0 0 300 200" True 100 ?r] c
  have e: "\<exists>px py. pixel_in_rect (beam_rect ?a) px py \<and> pixel_in_rect ?r px py"
    by blast
  from t have t': "lb_state ((LaserBeam_update ^^ 1) ?l) = Warning" by simp
  show ?thesis using le m t' c e by blast
qed

section \<open>Projectile motion and degenerate targets\<close>

text \<open>
  Claim C8 fails on the code. A projectile created at \<open>(100, 100)\<close> with velocity
  \<open>(0.5, 0.5)\<close> (and \<open>BULLET_SPEED_MULT = 1\<close>) stores that velocity, and one update leaves
  its rectangle at \<open>(100, 100)\<close>: the sum \<open>100.5\<close> is truncated when it is written back
  to the integer rectangle, so the position does not change by the velocity vector.
\<close>

theorem projectile_update_truncates:
  "p_vx (Projectile_init 1 100 100 0.5 0.5 8 8) = 0.5 \<and>
   p_vy (Projectile_init 1 100 100 0.5 0.5 8 8) = 0.5 \<and>
   p_rect (Projectile_init 1 100 100 0.5 0.5 8 8) = Rect 100 100 8 8 \<and>
   p_rect (fst (Projectile_update (Projectile_init 1 100 100 0.5 0.5 8 8))) = Rect 100 100 8 8"
  by (simp add: Projectile_init_def Projectile_update_def py_int_def Rect_def Let_def)

lemma py_int_of_int: "py_int (real_of_int k) = k"
  by (simp add: py_int_def)

lemma py_int_add_int: "py_int (real_of_int a + real_of_int b) = a + b"
  using py_int_of_int [of "a + b"] by simp

text \<open>
  With an integral velocity the update moves the rectangle by exactly the velocity.
\<close>

lemma projectile_update_integral:
  "p_vx p = real_of_int a \<Longrightarrow> p_vy p = real_of_int b \<Longrightarrow>
   rect_x (p_rect (fst (Projectile_update p))) = rect_x (p_rect p) + a \<and>
   rect_y (p_rect (fst (Projectile_update p))) = rect_y (p_rect p) + b"
  by (simp add: Projectile_update_def Let_def py_int_add_int)

lemma blade_aiming_iter:
  "hb_state b = Aiming \<Longrightarrow> hb_timer b + int k < aim_duration b \<Longrightarrow>
   ((\<lambda>c. fst (HomingBlade_update c)) ^^ k) b = b\<lparr>hb_timer := hb_timer b + int k\<rparr>"
proof (induction k)
  case 0
  then show ?case by simp
next
  case (Suc k)
  then show ?case by (simp add: HomingBlade_update_def Let_def)
qed

lemma blade_zero_target_step:
  assumes "hb_state b = Aiming" "aim_duration b \<le> hb_timer b + 1"
    "hb_target_x b = hb_x b" "hb_target_y b = hb_y b"
  shows "HomingBlade_update b = (b\<lparr>hb_timer := 0, hb_state := Charging\<rparr>, False)"
  using assms by (simp add: HomingBlade_update_def Let_def)

lemma blade_zero_target_after_aim:
  "((\<lambda>c. fst (HomingBlade_update c)) ^^ 60) (set_target x y (HomingBlade_init x y box))
     = (set_target x y (HomingBlade_init x y box))\<lparr>hb_timer := 0, hb_state := Charging\<rparr>"
proof -
  let ?b = "set_target x y (HomingBlade_init x y box)"
  have s: "hb_state ?b = Aiming" and t: "hb_timer ?b = 0" and a: "aim_duration ?b = 60"
    by (simp_all add: set_target_def HomingBlade_init_def)
  have "((\<lambda>c. fst (HomingBlade_update c)) ^^ 59) ?b = ?b\<lparr>hb_timer := hb_timer ?b + int 59\<rparr>"
    by (rule blade_aiming_iter) (simp_all add: s t a)
  then have i59: "((\<lambda>c. fst (HomingBlade_update c)) ^^ 59) ?b = ?b\<lparr>hb_timer := 59\<rparr>"
    using t by simp
  have "(60::nat) = Suc 59" by simp
  then have "((\<lambda>c. fst (HomingBlade_update c)) ^^ 60) ?b
      = fst (HomingBlade_update (((\<lambda>c. fst (HomingBlade_update c)) ^^ 59) ?b))"
    by (simp only: funpow.simps o_apply)
  also have "\<dots> = fst (HomingBlade_update (?b\<lparr>hb_timer := 59\<rparr>))" by (simp only: i59)
  also have "\<dots> = ?b\<lparr>hb_timer := 0, hb_state := Charging\<rparr>"
    by (subst blade_zero_target_step) (simp_all add: set_target_def HomingBlade_init_def)
  finally show ?thesis .
qed

text \<open>
  A \<open>TargetingBullet\<close> whose target is its spawn position takes the \<open>else\<close> branch of its
  constructor: direction straight down, stored velocity \<open>(0, speed * BULLET_SPEED_MULT)\<close>,
  with the default \<open>BULLET_BASE_SPEED * BULLET_SPEED_MULT\<close> for a missing or zero speed.
\<close>

lemma targeting_zero_vector:
  "p_vx (TargetingBullet_init B M x y x y sp) = 0 \<and>
   p_vy (TargetingBullet_init B M x y x y sp) =
     (case sp of None \<Rightarrow> B * M | Some s \<Rightarrow> if s = 0 then B * M else s) * M"
  by (simp add: TargetingBullet_init_def Projectile_init_def Let_def)

lemma blade_charging_iter:
  "hb_state b = Charging \<Longrightarrow> hb_timer b + int k < charge_duration b \<Longrightarrow>
   ((\<lambda>c. fst (HomingBlade_update c)) ^^ k) b = b\<lparr>hb_timer := hb_timer b + int k\<rparr>"
proof (induction k)
  case 0
  then show ?case by simp
next
  case (Suc k)
  then show ?case by (simp add: HomingBlade_update_def Let_def)
qed

lemma blade_flying_zero_velocity:
  assumes "hb_state b = Flying" "hb_vx b = 0" "hb_vy b = 0"
  shows "fst (HomingBlade_update b)
           = b\<lparr>hb_rect := set_center (py_int (hb_x b)) (py_int (hb_y b)) (hb_rect b)\<rparr>"
    and "snd (HomingBlade_update b) \<longleftrightarrow>
           hb_x b < real_of_int (rect_left (hb_box b) - 50) \<or>
           hb_x b > real_of_int (rect_right (hb_box b) + 50) \<or>
           hb_y b < real_of_int (rect_top (hb_box b) - 50) \<or>
           hb_y b > real_of_int (rect_bottom (hb_box b) + 50)"
  using assms by (simp_all add: HomingBlade_update_def Let_def)

text \<open>
  A flying blade with zero velocity inside its kill bounds stays where it is and is
  never killed by its own bounds check, however many updates follow.
\<close>

lemma blade_flying_stuck:
  assumes "hb_state b = Flying" "hb_vx b = 0" "hb_vy b = 0"
    and "\<not> (hb_x b < real_of_int (rect_left (hb_box b) - 50) \<or>
            hb_x b > real_of_int (rect_right (hb_box b) + 50) \<or>
            hb_y b < real_of_int (rect_top (hb_box b) - 50) \<or>
            hb_y b > real_of_int (rect_bottom (hb_box b) + 50))"
  shows "hb_state (((\<lambda>c. fst (HomingBlade_update c)) ^^ k) b) = Flying \<and>
         hb_vx (((\<lambda>c. fst (HomingBlade_update c)) ^^ k) b) = 0 \<and>
         hb_vy (((\<lambda>c. fst (HomingBlade_update c)) ^^ k) b) = 0 \<and>
         hb_x (((\<lambda>c. fst (HomingBlade_update c)) ^^ k) b) = hb_x b \<and>
         hb_y (((\<lambda>c. fst (HomingBlade_update c)) ^^ k) b) = hb_y b \<and>
         hb_box (((\<lambda>c. fst (HomingBlade_update c)) ^^ k) b) = hb_box b \<and>
         \<not> snd (HomingBlade_update (((\<lambda>c. fst (HomingBlade_update c)) ^^ k) b))"
proof (induction k)
  case 0
  then show ?case using assms blade_flying_zero_velocity(2) [of b] by simp
next
  case (Suc k)
  let ?c = "((\<lambda>c. fst (HomingBlade_update c)) ^^ k) b"
  let ?d = "fst (HomingBlade_update ?c)"
  have c: "hb_state ?c = Flying" "hb_vx ?c = 0" "hb_vy ?c = 0" "hb_x ?c = hb_x b"
    "hb_y ?c = hb_y b" "hb_box ?c = hb_box b"
    using Suc by simp_all
  have d: "?d = ?c\<lparr>hb_rect := set_center (py_int (hb_x ?c)) (py_int (hb_y ?c)) (hb_rect ?c)\<rparr>"
    by (rule blade_flying_zero_velocity(1) [OF c(1,2,3)])
  have f: "hb_state ?d = Flying" "hb_vx ?d = 0" "hb_vy ?d = 0" "hb_x ?d = hb_x b"
    "hb_y ?d = hb_y b" "hb_box ?d = hb_box b"
    by (subst d, simp add: c)+
  have "\<not> snd (HomingBlade_update ?d)"
    using blade_flying_zero_velocity(2) [OF f(1,2,3)] f(4,5,6) assms(4) by simp
  then show ?case using f by simp
qed

lemma blade_zero_target_flying:
  "((\<lambda>c. fst (HomingBlade_update c)) ^^ 75) (set_target x y (HomingBlade_init x y box))
     = (set_target x y (HomingBlade_init x y box))\<lparr>hb_timer := 15, hb_state := Flying\<rparr>"
proof -
  let ?b = "set_target x y (HomingBlade_init x y box)"
  let ?c = "?b\<lparr>hb_timer := 0, hb_state := Charging\<rparr>"
  have s: "hb_state ?c = Charging" "hb_timer ?c = 0" "charge_duration ?c = 15"
    by (simp_all add: set_target_def HomingBlade_init_def)
  have "((\<lambda>c. fst (HomingBlade_update c)) ^^ 14) ?c = ?c\<lparr>hb_timer := hb_timer ?c + int 14\<rparr>"
    by (rule blade_charging_iter) (simp_all add: s)
  then have i14: "((\<lambda>c. fst (HomingBlade_update c)) ^^ 14) ?c = ?c\<lparr>hb_timer := 14\<rparr>"
    by simp
  have "((\<lambda>c. fst (HomingBlade_update c)) ^^ 15) ?c
      = fst (HomingBlade_update (((\<lambda>c. fst (HomingBlade_update c)) ^^ 14) ?c))"
    by (rule funpow_last) simp
  also have "\<dots> = fst (HomingBlade_update (?c\<lparr>hb_timer := 14\<rparr>))" by (simp only: i14)
  also have "\<dots> = ?b\<lparr>hb_timer := 15, hb_state := Flying\<rparr>"
    by (simp add: HomingBlade_update_def Let_def set_target_def HomingBlade_init_def)
  finally have i15: "((\<lambda>c. fst (HomingBlade_update c)) ^^ 15) ?c
      = ?b\<lparr>hb_timer := 15, hb_state := Flying\<rparr>" .
  have "((\<lambda>c. fst (HomingBlade_update c)) ^^ 75) ?b
      = ((\<lambda>c. fst (HomingBlade_update c)) ^^ (75 - 60))
          (((\<lambda>c. fst (HomingBlade_update c)) ^^ 60) ?b)"
    by (rule funpow_split) simp
  then show ?thesis using i15 by (simp add: blade_zero_target_after_aim)
qed

text \<open>
  Claim C9 fails on the code for the homing blade. A blade at \<open>(100, 100)\<close> in a 300 by 200
  arena whose target is \<open>(100, 100)\<close> is charging after its 60 aiming updates with velocity
  \<open>(0, 0)\<close>, not \<open>(0, 15)\<close> straight down at its speed of 15: \<open>HomingBlade.update\<close> assigns
  the velocity only under \<open>if dist > 0\<close> and has no other branch. After 75 updates it is
  flying, and from then on it stays at \<open>(100, 100)\<close> and is never killed. The targeting
  bullet spawned on its target with speed 15 does get the velocity \<open>(0, 15)\<close>.
\<close>

theorem homing_blade_zero_target_no_fallback:
  "hb_state (((\<lambda>c. fst (HomingBlade_update c)) ^^ 60)
      (set_target 100 100 (HomingBlade_init 100 100 (Rect 0 0 300 200)))) = Charging \<and>
   hb_vx (((\<lambda>c. fst (HomingBlade_update c)) ^^ 60)
      (set_target 100 100 (HomingBlade_init 100 100 (Rect 0 0 300 200)))) = 0 \<and>
   hb_vy (((\<lambda>c. fst (HomingBlade_update c)) ^^ 60)
      (set_target 100 100 (HomingBlade_init 100 100 (Rect 0 0 300 200)))) = 0 \<and>
   hb_speed (((\<lambda>c. fst (HomingBlade_update c)) ^^ 60)
      (set_target 100 100 (HomingBlade_init 100 100 (Rect 0 0 300 200)))) = 15 \<and>
   hb_state (((\<lambda>c. fst (HomingBlade_update c)) ^^ 75)
      (set_target 100 100 (HomingBlade_init 100 100 (Rect 0 0 300 200)))) = Flying \<and>
   (\<forall>k. hb_x (((\<lambda>c. fst (HomingBlade_update c)) ^^ k)
            (((\<lambda>c. fst (HomingBlade_update c)) ^^ 75)
               (set_target 100 100 (HomingBlade_init 100 100 (Rect 0 0 300 200))))) = 100 \<and>
        hb_y (((\<lambda>c. fst (HomingBlade_update c)) ^^ k)
            (((\<lambda>c. fst (HomingBlade_update c)) ^^ 75)
               (set_target 100 100 (HomingBlade_init 100 100 (Rect 0 0 300 200))))) = 100 \<and>
        \<not> snd (HomingBlade_update (((\<lambda>c. fst (HomingBlade_update c)) ^^ k)
            (((\<lambda>c. fst (HomingBlade_update c)) ^^ 75)
               (set_target 100 100 (HomingBlade_init 100 100 (Rect 0 0 300 200))))))) \<and>
   p_vx (TargetingBullet_init 3 1 100 100 100 100 (Some 15)) = 0 \<and>
   p_vy (TargetingBullet_init 3 1 100 100 100 100 (Some 15)) = 15"
proof -
  let ?b = "set_target 100 100 (HomingBlade_init 100 100 (Rect 0 0 300 200))"
  let ?f = "?b\<lparr>hb_timer := 15, hb_state := Flying\<rparr>"
  have a: "hb_state (((\<lambda>c. fst (HomingBlade_update c)) ^^ 60) ?b) = Charging"
    "hb_vx (((\<lambda>c. fst (HomingBlade_update c)) ^^ 60) ?b) = 0"
    "hb_vy (((\<lambda>c. fst (HomingBlade_update c)) ^^ 60) ?b) = 0"
    "hb_speed (((\<lambda>c. fst (HomingBlade_update c)) ^^ 60) ?b) = 15"
    unfolding blade_zero_target_after_aim
    by (simp_all add: set_target_def HomingBlade_init_def)
  have f75: "((\<lambda>c. fst (HomingBlade_update c)) ^^ 75) ?b = ?f"
    by (rule blade_zero_target_flying)
  have f: "hb_state ?f = Flying" "hb_vx ?f = 0" "hb_vy ?f = 0" "hb_x ?f = 100" "hb_y ?f = 100"
    by (simp_all add: set_target_def HomingBlade_init_def)
  have inb: "\<not> (hb_x ?f < real_of_int (rect_left (hb_box ?f) - 50) \<or>
            hb_x ?f > real_of_int (rect_right (hb_box ?f) + 50) \<or>
            hb_y ?f < real_of_int (rect_top (hb_box ?f) - 50) \<or>
            hb_y ?f > real_of_int (rect_bottom (hb_box ?f) + 50))"
    by (simp add: set_target_def HomingBlade_init_def Rect_def rect_left_def rect_right_def
        rect_top_def rect_bottom_def)
  have stuck: "hb_x (((\<lambda>c. fst (HomingBlade_update c)) ^^ k) ?f) = 100 \<and>
        hb_y (((\<lambda>c. fst (HomingBlade_update c)) ^^ k) ?f) = 100 \<and>
        \<not> snd (HomingBlade_update (((\<lambda>c. fst (HomingBlade_update c)) ^^ k) ?f))" for k
    using blade_flying_stuck [OF f(1,2,3) inb, of k] f(4,5) by simp
  have t: "p_vx (TargetingBullet_init 3 1 100 100 100 100 (Some 15)) = 0"
    "p_vy (TargetingBullet_init 3 1 100 100 100 100 (Some 15)) = 15"
    using targeting_zero_vector [of 3 1 100 100 "Some 15"] by simp_all
  show ?thesis unfolding f75 using a f(1) stuck t by blast
qed

end
